theory Spec2Isabelle
  imports Complex_Main "HOL-Library.Sublist"
begin

section \<open>Python values and string operations\<close>

text \<open>
  The pipeline of \<^verbatim>\<open>src/backend/langgraph_pipeline.py\<close> is embedded as pure functions
  over an explicit run state. A name of the source that starts with an underscore is
  written without it. A raised exception is represented by its message \<^verbatim>\<open>str(e)\<close>; the
  messages of the built-in exceptions are shortened, and no statement depends on them
  beyond the prefix that a stage puts in front.
  A Python float is modelled by the real it denotes; NaN and an infinite frame rate or
  timestamp are left out. The comparison against \<^verbatim>\<open>0.5\<close> and the truncation \<^verbatim>\<open>int(...)\<close>
  are exact on floats; the doubling \<^verbatim>\<open>fps * 2\<close> is exact up to its overflow, which is
  modelled; the subtraction of two timestamps is rounded as the source rounds it. The
  division \<^verbatim>\<open>frame_number / fps\<close> is taken without rounding.
  Strings are lists of 8-bit characters.
\<close>

type_synonym exn = string

type_synonym image = string

datatype json =
    JNull
  | JBool bool
  | JNum real
  | JStr string
  | JArr "json list"
  | JObj "(string \<times> json) list"

text \<open>\<^verbatim>\<open>sub in s\<close> on strings is \<^const>\<open>sublist\<close>. \<^verbatim>\<open>s.split(sep)\<close> for a non-empty
  separator scans from the left and cuts at each occurrence; every call site of the
  source passes a non-empty constant.\<close>

fun py_split :: "string \<Rightarrow> string \<Rightarrow> string list" where
  "py_split sep [] = [[]]"
| "py_split sep (c # cs) =
     (if sep \<noteq> [] \<and> prefix sep (c # cs)
      then [] # py_split sep (drop (length sep) (c # cs))
      else (case py_split sep cs of
              [] \<Rightarrow> [[c]]
            | r # rs \<Rightarrow> (c # r) # rs))"

text \<open>\<^verbatim>\<open>s.replace(old, new)\<close> for a non-empty \<^verbatim>\<open>old\<close>: every occurrence, from the left.\<close>

fun py_replace :: "string \<Rightarrow> string \<Rightarrow> string \<Rightarrow> string" where
  "py_replace old new [] = []"
| "py_replace old new (c # cs) =
     (if old \<noteq> [] \<and> prefix old (c # cs)
      then new @ py_replace old new (drop (length old) (c # cs))
      else c # py_replace old new cs)"

text \<open>\<^verbatim>\<open>xs[i]\<close> for \<^verbatim>\<open>i >= 0\<close>: IndexError out of range.\<close>

definition py_index :: "'a list \<Rightarrow> nat \<Rightarrow> exn + 'a" where
  "py_index xs i =
     (if i < length xs then Inr (xs ! i) else Inl ''list index out of range'')"

text \<open>\<^verbatim>\<open>int(x)\<close> on a float truncates toward zero.\<close>

definition py_int :: "real \<Rightarrow> int" where
  "py_int x = (if 0 \<le> x then \<lfloor>x\<rfloor> else \<lceil>x\<rceil>)"

text \<open>Rounding to the nearest integer, ties to the even one: the rounding of the
  significand of a float operation.\<close>

definition round_half_even :: "real \<Rightarrow> int" where
  "round_half_even y =
     (if y - real_of_int \<lfloor>y\<rfloor> < 1 / 2 then \<lfloor>y\<rfloor>
      else if 1 / 2 < y - real_of_int \<lfloor>y\<rfloor> then \<lfloor>y\<rfloor> + 1
      else if even \<lfloor>y\<rfloor> then \<lfloor>y\<rfloor> else \<lfloor>y\<rfloor> + 1)"

text \<open>\<^verbatim>\<open>abs(a - b) < 1.0\<close> on floats. The difference of two floats is the exact
  difference rounded to the nearest double, and \<^verbatim>\<open>abs\<close> is exact. The numbers 1/2 and 1
  are doubles and rounding keeps the order, so a difference below 1/2 stays below 1.0
  and a difference of 1 or more stays at 1.0 or above (an infinity included). Between
  1/2 and 1 the doubles are the multiples of \<open>1 / 2 ^ 53\<close>, and the difference is rounded
  to the nearest of them, ties to the even significand.\<close>

definition abs_diff_below_one :: "real \<Rightarrow> real \<Rightarrow> bool" where
  "abs_diff_below_one a b =
     (let d = \<bar>a - b\<bar>
      in if d < 1 / 2 then True
         else if 1 \<le> d then False
         else real_of_int (round_half_even (d * 2 ^ 53)) / 2 ^ 53 < 1)"

fun str_nat :: "nat \<Rightarrow> string" where
  "str_nat n =
     (if n < 10 then [''0123456789'' ! n]
      else str_nat (n div 10) @ [''0123456789'' ! (n mod 10)])"

declare str_nat.simps [simp del]

definition str_int :: "int \<Rightarrow> string" where
  "str_int i = (if i < 0 then ''-'' @ str_nat (nat (- i)) else str_nat (nat i))"

text \<open>\<^verbatim>\<open>s.lower()\<close> on ASCII text.\<close>

definition lower_char :: "char \<Rightarrow> char" where
  "lower_char c =
     (if 65 \<le> (of_char c :: nat) \<and> (of_char c :: nat) \<le> 90
      then char_of ((of_char c :: nat) + 32) else c)"

definition py_lower :: "string \<Rightarrow> string" where
  "py_lower s = map lower_char s"

text \<open>Truthiness of a decoded JSON value.\<close>

fun py_truthy :: "json \<Rightarrow> bool" where
  "py_truthy JNull = False"
| "py_truthy (JBool b) = b"
| "py_truthy (JNum x) = (x \<noteq> 0)"
| "py_truthy (JStr s) = (s \<noteq> [])"
| "py_truthy (JArr xs) = (xs \<noteq> [])"
| "py_truthy (JObj kv) = (kv \<noteq> [])"

text \<open>\<^verbatim>\<open>d.get(k, default)\<close> and \<^verbatim>\<open>d[k]\<close> on a decoded JSON object.\<close>

definition dict_get :: "(string \<times> json) list \<Rightarrow> string \<Rightarrow> json \<Rightarrow> json" where
  "dict_get kv k d = (case map_of kv k of None \<Rightarrow> d | Some v \<Rightarrow> v)"

definition dict_item :: "(string \<times> json) list \<Rightarrow> string \<Rightarrow> exn + json" where
  "dict_item kv k =
     (case map_of kv k of None \<Rightarrow> Inl ([CHR 0x27] @ k @ [CHR 0x27]) | Some v \<Rightarrow> Inr v)"

text \<open>\<^verbatim>\<open>x > 0.5\<close>: numbers and booleans compare, anything else is a TypeError.\<close>

fun gt_half :: "json \<Rightarrow> exn + bool" where
  "gt_half (JNum x) = Inr (1 / 2 < x)"
| "gt_half (JBool b) = Inr b"
| "gt_half _ = Inl ''not supported between instances''"

text \<open>\<^verbatim>\<open>for product in v\<close>: a list gives its elements, a string its characters, a
  dict its keys; anything else is not iterable.\<close>

fun py_iter :: "json \<Rightarrow> exn + json list" where
  "py_iter (JArr xs) = Inr xs"
| "py_iter (JStr s) = Inr (map (\<lambda>c. JStr [c]) s)"
| "py_iter (JObj kv) = Inr (map (\<lambda>(k, v). JStr k) kv)"
| "py_iter _ = Inl ''object is not iterable''"

text \<open>\<^verbatim>\<open>product.name.replace(' ', '_')\<close>: only a string has \<^verbatim>\<open>replace\<close>.\<close>

fun name_replace :: "json \<Rightarrow> exn + string" where
  "name_replace (JStr s) = Inr (py_replace '' '' ''_'' s)"
| "name_replace _ = Inl ''object has no attribute replace''"

section \<open>Data model\<close>

text \<open>\<^verbatim>\<open>ProductInfo\<close>: the dataclass does not check field types, so \<^verbatim>\<open>name\<close>,
  \<^verbatim>\<open>confidence\<close> and \<^verbatim>\<open>description\<close> hold whatever the decoded response held.\<close>

record ProductInfo =
  name :: json
  confidence :: json
  description :: json
  timestamp :: real
  frame_image_path :: string
  segmented_image_path :: string
  enhanced_images :: "string list"

text \<open>A frame dictionary. Its key \<^verbatim>\<open>"timestamp"\<close> is the field \<open>frame_timestamp\<close>.
  \<^verbatim>\<open>products_detected\<close> holds references to the objects of \<^verbatim>\<open>state["products"]\<close>: each
  reference is the position of the object in that list, which only grows.\<close>

record frame =
  frame_number :: int
  frame_timestamp :: real
  image_path :: string
  products_detected :: "nat list"

record State =
  url :: string
  video_id :: string
  video_path :: string
  frames :: "frame list"
  products :: "ProductInfo list"
  error :: "string option"

section \<open>Collaborators\<close>

text \<open>What \<^verbatim>\<open>cv2.VideoCapture(path)\<close> gives: the two properties read by the sampler and
  the frames that \<^verbatim>\<open>cap.read()\<close> returns before it reports the end of the stream.\<close>

record video =
  CAP_PROP_FPS :: real
  CAP_PROP_FRAME_COUNT :: real
  decoded :: "image list"

text \<open>The three prompts sent to the model: each is a fixed text around the value
  given here.\<close>

datatype directive =
    DetectionDirective
  | IsolationDirective json
  | StyleDirective string

text \<open>The outside world (file system, network, model) is a value of type \<open>'w\<close>,
  threaded through every call that can change it. A call that can raise returns the
  exception's message.\<close>

record 'w env =
  os_path_exists :: "'w \<Rightarrow> string \<Rightarrow> bool"
  ydl_download :: "'w \<Rightarrow> string \<Rightarrow> string \<Rightarrow> exn option \<times> 'w"
  cv2_VideoCapture :: "'w \<Rightarrow> string \<Rightarrow> video"
  cv2_imwrite :: "'w \<Rightarrow> string \<Rightarrow> image \<Rightarrow> exn option \<times> 'w"
  Image_open :: "'w \<Rightarrow> string \<Rightarrow> exn + image"
  Image_save :: "'w \<Rightarrow> image \<Rightarrow> string \<Rightarrow> exn option \<times> 'w"
  generate_content :: "'w \<Rightarrow> directive \<Rightarrow> image \<Rightarrow> (exn + string) \<times> 'w"
  json_loads :: "string \<Rightarrow> json option"

section \<open>Video acquisition\<close>

definition extract_video_id :: "string \<Rightarrow> exn + string" where
  "extract_video_id u =
     (if sublist ''youtube.com/watch?v='' u then
        (case py_index (py_split ''v='' u) 1 of
           Inl e \<Rightarrow> Inl e
         | Inr a \<Rightarrow> py_index (py_split ''&'' a) 0)
      else if sublist ''youtube.com/shorts/'' u then
        (case py_index (py_split ''shorts/'' u) 1 of
           Inl e \<Rightarrow> Inl e
         | Inr a \<Rightarrow> py_index (py_split ''?'' a) 0)
      else if sublist ''youtu.be/'' u then
        (case py_index (py_split ''youtu.be/'' u) 1 of
           Inl e \<Rightarrow> Inl e
         | Inr a \<Rightarrow> py_index (py_split ''?'' a) 0)
      else Inr ''unknown'')"

definition extract_video :: "'w env \<Rightarrow> 'w \<Rightarrow> State \<Rightarrow> 'w \<times> State" where
  "extract_video env w state =
     (case extract_video_id (url state) of
        Inl e \<Rightarrow> (w, state\<lparr>error := Some (''Video extraction failed: '' @ e)\<rparr>)
      | Inr vid \<Rightarrow>
          (let path = ''output/video_'' @ vid @ ''.mp4'';
               state' = state\<lparr>video_id := vid, video_path := path\<rparr>
           in if \<not> os_path_exists env w path then
                (case ydl_download env w (url state) path of
                   (Some e, w') \<Rightarrow>
                     (w', state'\<lparr>error := Some (''Video extraction failed: '' @ e)\<rparr>)
                 | (None, w') \<Rightarrow> (w', state'))
              else (w, state')))"

section \<open>Frame sampler\<close>

text \<open>\<^verbatim>\<open>int(fps * 2)\<close>. Doubling a float is exact unless it overflows to an infinity,
  which it does from \<open>2 ^ 1023\<close> on; \<^verbatim>\<open>int\<close> of an infinity raises OverflowError.\<close>

definition frame_interval :: "real \<Rightarrow> exn + int" where
  "frame_interval fps =
     (if 2 ^ 1023 \<le> \<bar>fps\<bar> then Inl ''cannot convert float infinity to integer''
      else Inr (py_int (fps * 2)))"

definition frame_path :: "string \<Rightarrow> int \<Rightarrow> string" where
  "frame_path vid n = ''output/frame_'' @ vid @ ''_'' @ str_int n @ ''.jpg''"

text \<open>The \<^verbatim>\<open>while True\<close> loop over \<^verbatim>\<open>cap.read()\<close>: one step per decoded frame; the
  local list \<^verbatim>\<open>frames\<close> is lost when an exception leaves the loop.\<close>

fun read_loop ::
  "'w env \<Rightarrow> string \<Rightarrow> real \<Rightarrow> int \<Rightarrow> 'w \<Rightarrow> image list \<Rightarrow> int \<Rightarrow> frame list
     \<Rightarrow> 'w \<times> (exn + frame list)" where
  "read_loop env vid fps interval w [] n acc = (w, Inr acc)"
| "read_loop env vid fps interval w (img # rest) n acc =
     (if interval = 0 then (w, Inl ''integer division or modulo by zero'')
      else if n mod interval = 0 then
        (if fps = 0 then (w, Inl ''float division by zero'')
         else (case cv2_imwrite env w (frame_path vid n) img of
                 (Some e, w') \<Rightarrow> (w', Inl e)
               | (None, w') \<Rightarrow>
                   read_loop env vid fps interval w' rest (n + 1)
                     (acc @ [\<lparr>frame_number = n,
                              frame_timestamp = real_of_int n / fps,
                              image_path = frame_path vid n,
                              products_detected = []\<rparr>])))
      else read_loop env vid fps interval w rest (n + 1) acc)"

definition extract_frames :: "'w env \<Rightarrow> 'w \<Rightarrow> State \<Rightarrow> 'w \<times> State" where
  "extract_frames env w state =
     (let cap = cv2_VideoCapture env w (video_path state);
          fps = CAP_PROP_FPS cap;
          frame_count = py_int (CAP_PROP_FRAME_COUNT cap)
      in if fps = 0 then
           (w, state\<lparr>error := Some (''Frame extraction failed: '' @ ''float division by zero'')\<rparr>)
         else
           (case frame_interval fps of
              Inl e \<Rightarrow> (w, state\<lparr>error := Some (''Frame extraction failed: '' @ e)\<rparr>)
            | Inr interval \<Rightarrow>
                (case read_loop env (video_id state) fps interval w (decoded cap) 0 [] of
                   (w', Inl e) \<Rightarrow>
                     (w', state\<lparr>error := Some (''Frame extraction failed: '' @ e)\<rparr>)
                 | (w', Inr fs) \<Rightarrow> (w', state\<lparr>frames := fs\<rparr>))))"

section \<open>Product detector\<close>

text \<open>The condition of the \<^verbatim>\<open>if\<close> on one candidate:
  \<^verbatim>\<open>product.get("is_good_frame", False) and product.get("confidence", 0) > 0.5\<close>.
  Only a dict has \<^verbatim>\<open>get\<close>; the comparison is not evaluated when the flag is falsy.\<close>

fun accept_candidate :: "json \<Rightarrow> exn + bool" where
  "accept_candidate (JObj kv) =
     (if py_truthy (dict_get kv ''is_good_frame'' (JBool False))
      then gt_half (dict_get kv ''confidence'' (JNum 0))
      else Inr False)"
| "accept_candidate _ = Inl ''object has no attribute get''"

text \<open>The constructor call \<^verbatim>\<open>ProductInfo(name=product["name"], ...)\<close>; the
  \<^verbatim>\<open>__post_init__\<close> replaces the missing list by \<^verbatim>\<open>[]\<close>.\<close>

fun new_product :: "json \<Rightarrow> real \<Rightarrow> exn + ProductInfo" where
  "new_product (JObj kv) ts =
     (case dict_item kv ''name'' of
        Inl e \<Rightarrow> Inl e
      | Inr n \<Rightarrow>
          (case dict_item kv ''confidence'' of
             Inl e \<Rightarrow> Inl e
           | Inr c \<Rightarrow>
               (case dict_item kv ''description'' of
                  Inl e \<Rightarrow> Inl e
                | Inr d \<Rightarrow>
                    Inr \<lparr>name = n, confidence = c, description = d, timestamp = ts,
                         frame_image_path = [], segmented_image_path = [],
                         enhanced_images = []\<rparr>)))"
| "new_product _ ts = Inl ''object is not subscriptable''"

text \<open>The loop over the candidates of one response. Both lists are appended to in
  place, so what was appended before an exception stays.\<close>

fun candidates_loop ::
  "real \<Rightarrow> json list \<Rightarrow> ProductInfo list \<Rightarrow> nat list
     \<Rightarrow> ProductInfo list \<times> nat list \<times> exn option" where
  "candidates_loop ts [] prods det = (prods, det, None)"
| "candidates_loop ts (product # rest) prods det =
     (case accept_candidate product of
        Inl e \<Rightarrow> (prods, det, Some e)
      | Inr False \<Rightarrow> candidates_loop ts rest prods det
      | Inr True \<Rightarrow>
          (case new_product product ts of
             Inl e \<Rightarrow> (prods, det, Some e)
           | Inr product_info \<Rightarrow>
               candidates_loop ts rest (prods @ [product_info]) (det @ [length prods])))"

definition fallback_keywords :: "string list" where
  "fallback_keywords = [''product'', ''item'', ''object'', ''thing'', ''device'', ''tool'',
     ''cosmetic'', ''makeup'', ''phone'', ''laptop'', ''book'', ''food'', ''drink'']"

text \<open>The \<^verbatim>\<open>except json.JSONDecodeError\<close> branch: the test
  \<^verbatim>\<open>any(word in response_lower for word in [...])\<close> and the record it appends.\<close>

definition keyword_found :: "string \<Rightarrow> bool" where
  "keyword_found text =
     (let response_lower = py_lower text
      in list_ex (\<lambda>word. sublist word response_lower) fallback_keywords)"

definition fallback_product :: "string \<Rightarrow> real \<Rightarrow> ProductInfo" where
  "fallback_product text ts =
     \<lparr>name = JStr ''Detected Product'', confidence = JNum (6 / 10),
      description = JStr (take 200 text), timestamp = ts,
      frame_image_path = [], segmented_image_path = [], enhanced_images = []\<rparr>"

text \<open>The inner \<^verbatim>\<open>try\<close> on a response text: the structured path when
  \<^verbatim>\<open>json.loads\<close> returns, the fallback when it raises JSONDecodeError. Any other
  exception leaves the inner \<^verbatim>\<open>try\<close>.\<close>

definition parse_response ::
  "'w env \<Rightarrow> string \<Rightarrow> real \<Rightarrow> ProductInfo list \<Rightarrow> nat list
     \<Rightarrow> ProductInfo list \<times> nat list \<times> exn option" where
  "parse_response env text ts prods det =
     (case json_loads env text of
        Some result \<Rightarrow>
          (case result of
             JObj kv \<Rightarrow>
               (case py_iter (dict_get kv ''products'' (JArr [])) of
                  Inl e \<Rightarrow> (prods, det, Some e)
                | Inr cands \<Rightarrow> candidates_loop ts cands prods det)
           | _ \<Rightarrow> (prods, det, Some ''object has no attribute get''))
      | None \<Rightarrow>
          (if keyword_found text
           then (prods @ [fallback_product text ts], det @ [length prods], None)
           else (prods, det, None)))"

text \<open>The body of the loop over the frames, for one frame.\<close>

definition detect_frame ::
  "'w env \<Rightarrow> 'w \<Rightarrow> frame \<Rightarrow> ProductInfo list
     \<Rightarrow> 'w \<times> frame \<times> ProductInfo list \<times> exn option" where
  "detect_frame env w frame_data prods =
     (case Image_open env w (image_path frame_data) of
        Inl e \<Rightarrow> (w, frame_data, prods, Some e)
      | Inr img \<Rightarrow>
          (case generate_content env w DetectionDirective img of
             (Inl e, w') \<Rightarrow> (w', frame_data, prods, Some e)
           | (Inr text, w') \<Rightarrow>
               (case parse_response env text (frame_timestamp frame_data) prods
                       (products_detected frame_data) of
                  (prods', det', r) \<Rightarrow>
                    (w', frame_data\<lparr>products_detected := det'\<rparr>, prods', r))))"

fun identify_loop ::
  "'w env \<Rightarrow> 'w \<Rightarrow> frame list \<Rightarrow> ProductInfo list
     \<Rightarrow> 'w \<times> frame list \<times> ProductInfo list \<times> exn option" where
  "identify_loop env w [] prods = (w, [], prods, None)"
| "identify_loop env w (frame_data # rest) prods =
     (case detect_frame env w frame_data prods of
        (w', frame_data', prods', Some e) \<Rightarrow> (w', frame_data' # rest, prods', Some e)
      | (w', frame_data', prods', None) \<Rightarrow>
          (case identify_loop env w' rest prods' of
             (w'', rest', prods'', r) \<Rightarrow> (w'', frame_data' # rest', prods'', r)))"

definition identify_products :: "'w env \<Rightarrow> 'w \<Rightarrow> State \<Rightarrow> 'w \<times> State" where
  "identify_products env w state =
     (case identify_loop env w (frames state) (products state) of
        (w', fs, prods, None) \<Rightarrow> (w', state\<lparr>frames := fs, products := prods\<rparr>)
      | (w', fs, prods, Some e) \<Rightarrow>
          (w', state\<lparr>frames := fs, products := prods,
                     error := Some (''Product identification failed: '' @ e)\<rparr>))"

section \<open>Product isolator\<close>

text \<open>The inner \<^verbatim>\<open>for frame in state["frames"]\<close> with its \<^verbatim>\<open>break\<close>.\<close>

definition find_frame :: "frame list \<Rightarrow> ProductInfo \<Rightarrow> frame option" where
  "find_frame fs product =
     find (\<lambda>frame. abs_diff_below_one (frame_timestamp frame) (timestamp product)) fs"

definition public_frame_path :: "string \<Rightarrow> int \<Rightarrow> string" where
  "public_frame_path vid n = ''/output/frame_'' @ vid @ ''_'' @ str_int n @ ''.jpg''"

definition segmented_name :: "string \<Rightarrow> real \<Rightarrow> string" where
  "segmented_name nm ts = ''segmented_'' @ nm @ ''_'' @ str_int (py_int ts) @ ''.jpg''"

text \<open>The body of the loop over the products, for one product. A frame dictionary
  is never empty, so \<^verbatim>\<open>if frame_data:\<close> tests that a frame was found.\<close>

definition segment_product ::
  "'w env \<Rightarrow> 'w \<Rightarrow> string \<Rightarrow> frame list \<Rightarrow> ProductInfo \<Rightarrow> 'w \<times> ProductInfo \<times> exn option" where
  "segment_product env w vid fs product =
     (case find_frame fs product of
        None \<Rightarrow> (w, product, None)
      | Some frame_data \<Rightarrow>
          (case Image_open env w (image_path frame_data) of
             Inl e \<Rightarrow> (w, product, Some e)
           | Inr img \<Rightarrow>
               (case generate_content env w (IsolationDirective (name product)) img of
                  (Inl e, w') \<Rightarrow> (w', product, Some e)
                | (Inr response, w') \<Rightarrow>
                    (case name_replace (name product) of
                       Inl e \<Rightarrow> (w', product, Some e)
                     | Inr nm \<Rightarrow>
                         (case Image_save env w' img
                                 (''output/'' @ segmented_name nm (timestamp product)) of
                            (Some e, w'') \<Rightarrow> (w'', product, Some e)
                          | (None, w'') \<Rightarrow>
                              (w'',
                               product\<lparr>segmented_image_path :=
                                          ''/output/'' @ segmented_name nm (timestamp product),
                                        frame_image_path :=
                                          public_frame_path vid (frame_number frame_data)\<rparr>,
                               None))))))"

fun segment_loop ::
  "'w env \<Rightarrow> 'w \<Rightarrow> string \<Rightarrow> frame list \<Rightarrow> ProductInfo list
     \<Rightarrow> 'w \<times> ProductInfo list \<times> exn option" where
  "segment_loop env w vid fs [] = (w, [], None)"
| "segment_loop env w vid fs (product # rest) =
     (case segment_product env w vid fs product of
        (w', product', Some e) \<Rightarrow> (w', product' # rest, Some e)
      | (w', product', None) \<Rightarrow>
          (case segment_loop env w' vid fs rest of
             (w'', rest', r) \<Rightarrow> (w'', product' # rest', r)))"

definition segment_products :: "'w env \<Rightarrow> 'w \<Rightarrow> State \<Rightarrow> 'w \<times> State" where
  "segment_products env w state =
     (case segment_loop env w (video_id state) (frames state) (products state) of
        (w', prods, None) \<Rightarrow> (w', state\<lparr>products := prods\<rparr>)
      | (w', prods, Some e) \<Rightarrow>
          (w', state\<lparr>products := prods,
                     error := Some (''Product segmentation failed: '' @ e)\<rparr>))"

section \<open>Product enhancer\<close>

definition styles :: "string list" where
  "styles = [''professional product photography with clean white background'',
     ''modern lifestyle setting with subtle background'',
     ''e-commerce style with shadow and depth'']"

definition enhanced_name :: "string \<Rightarrow> nat \<Rightarrow> real \<Rightarrow> string" where
  "enhanced_name nm i ts =
     ''enhanced_'' @ nm @ ''_'' @ str_int (int i + 1) @ ''_'' @ str_int (py_int ts) @ ''.jpg''"

text \<open>The loop \<^verbatim>\<open>for i, style in enumerate(styles)\<close>; the local list
  \<^verbatim>\<open>enhanced_images\<close> is lost when an exception leaves the loop.\<close>

fun styles_loop ::
  "'w env \<Rightarrow> 'w \<Rightarrow> image \<Rightarrow> ProductInfo \<Rightarrow> nat \<Rightarrow> string list \<Rightarrow> string list
     \<Rightarrow> 'w \<times> (exn + string list)" where
  "styles_loop env w img product i [] acc = (w, Inr acc)"
| "styles_loop env w img product i (style # rest) acc =
     (case generate_content env w (StyleDirective style) img of
        (Inl e, w') \<Rightarrow> (w', Inl e)
      | (Inr response, w') \<Rightarrow>
          (case name_replace (name product) of
             Inl e \<Rightarrow> (w', Inl e)
           | Inr nm \<Rightarrow>
               (case Image_save env w' img
                       (''output/'' @ enhanced_name nm i (timestamp product)) of
                  (Some e, w'') \<Rightarrow> (w'', Inl e)
                | (None, w'') \<Rightarrow>
                    styles_loop env w'' img product (i + 1) rest
                      (acc @ [''/output/'' @ enhanced_name nm i (timestamp product)]))))"

definition enhance_product ::
  "'w env \<Rightarrow> 'w \<Rightarrow> ProductInfo \<Rightarrow> 'w \<times> ProductInfo \<times> exn option" where
  "enhance_product env w product =
     (if segmented_image_path product \<noteq> [] then
        (case Image_open env w
                (py_replace ''/output/'' ''output/'' (segmented_image_path product)) of
           Inl e \<Rightarrow> (w, product, Some e)
         | Inr img \<Rightarrow>
             (case styles_loop env w img product 0 styles [] of
                (w', Inl e) \<Rightarrow> (w', product, Some e)
              | (w', Inr imgs) \<Rightarrow> (w', product\<lparr>enhanced_images := imgs\<rparr>, None)))
      else (w, product, None))"

fun enhance_loop ::
  "'w env \<Rightarrow> 'w \<Rightarrow> ProductInfo list \<Rightarrow> 'w \<times> ProductInfo list \<times> exn option" where
  "enhance_loop env w [] = (w, [], None)"
| "enhance_loop env w (product # rest) =
     (case enhance_product env w product of
        (w', product', Some e) \<Rightarrow> (w', product' # rest, Some e)
      | (w', product', None) \<Rightarrow>
          (case enhance_loop env w' rest of
             (w'', rest', r) \<Rightarrow> (w'', product' # rest', r)))"

definition enhance_products :: "'w env \<Rightarrow> 'w \<Rightarrow> State \<Rightarrow> 'w \<times> State" where
  "enhance_products env w state =
     (case enhance_loop env w (products state) of
        (w', prods, None) \<Rightarrow> (w', state\<lparr>products := prods\<rparr>)
      | (w', prods, Some e) \<Rightarrow>
          (w', state\<lparr>products := prods,
                     error := Some (''Product enhancement failed: '' @ e)\<rparr>))"

section \<open>Orchestrator\<close>

text \<open>The compiled workflow: the five nodes along the unconditional edges
  \<^verbatim>\<open>extract_video \<rightarrow> extract_frames \<rightarrow> identify_products \<rightarrow> segment_products \<rightarrow>
  enhance_products \<rightarrow> END\<close>.\<close>

definition workflow :: "'w env \<Rightarrow> 'w \<Rightarrow> State \<Rightarrow> 'w \<times> State" where
  "workflow env w state =
     (case extract_video env w state of (w1, s1) \<Rightarrow>
      case extract_frames env w1 s1 of (w2, s2) \<Rightarrow>
      case identify_products env w2 s2 of (w3, s3) \<Rightarrow>
      case segment_products env w3 s3 of (w4, s4) \<Rightarrow>
      enhance_products env w4 s4)"

definition initial_state :: "string \<Rightarrow> State" where
  "initial_state u =
     \<lparr>url = u, video_id = [], video_path = [], frames = [], products = [], error = None\<rparr>"

datatype outcome =
    Error string
  | Products "ProductInfo list" string

text \<open>\<^verbatim>\<open>process_video\<close>. Every node catches its own exceptions, so the outer
  \<^verbatim>\<open>except\<close> is not entered; \<^verbatim>\<open>if result.get("error")\<close> holds for a non-empty string.\<close>

definition process_video :: "'w env \<Rightarrow> 'w \<Rightarrow> string \<Rightarrow> 'w \<times> outcome" where
  "process_video env w u =
     (case workflow env w (initial_state u) of
        (w', result) \<Rightarrow>
          (case error result of
             Some e \<Rightarrow>
               if e \<noteq> [] then (w', Error e)
               else (w', Products (products result)
                      (''Successfully processed video and found ''
                         @ str_int (int (length (products result))) @ '' products''))
           | None \<Rightarrow>
               (w', Products (products result)
                  (''Successfully processed video and found ''
                     @ str_int (int (length (products result))) @ '' products''))))"

section \<open>The expected structure of a detection\<close>








section \<open>A concrete environment\<close>

text \<open>An environment on which the functions above are run: nothing is cached; the
  download fails for one URL; the file that was not downloaded does not open (frame
  rate 0, no frames), any other video has three frames at one frame per second; the
  model answers the detection prompt with the expected JSON on the first frame of two
  videos, with prose on most other frames, and on the two frames of one video with JSON
  that lacks the expected structure: the object \<^verbatim>\<open>{"items": []}\<close> and the array
  \<^verbatim>\<open>["a product"]\<close>; one frame image cannot be opened.\<close>

definition detection_reply :: json where
  "detection_reply =
     JObj [(''products'',
            JArr [JObj [(''name'', JStr ''Red Mug''), (''confidence'', JNum (9 / 10)),
                        (''description'', JStr ''a mug''), (''is_good_frame'', JBool True)],
                  JObj [(''name'', JStr ''Pen''), (''confidence'', JNum (1 / 2)),
                        (''description'', JStr ''a pen''), (''is_good_frame'', JBool True)]])]"

definition items_reply :: string where
  "items_reply = ''{'' @ [CHR 0x22] @ ''items'' @ [CHR 0x22] @ '': []}''"

definition array_reply :: string where
  "array_reply = ''['' @ [CHR 0x22] @ ''a product'' @ [CHR 0x22] @ '']''"

definition demo_env :: "unit env" where
  "demo_env =
     \<lparr>os_path_exists = (\<lambda>w p. False),
      ydl_download =
        (\<lambda>w u p. if u = ''https://example.com/clip'' then (Some ''download error'', w)
                  else (None, w)),
      cv2_VideoCapture =
        (\<lambda>w p. if p = ''output/video_unknown.mp4''
                then \<lparr>CAP_PROP_FPS = 0, CAP_PROP_FRAME_COUNT = 0, decoded = []\<rparr>
                else \<lparr>CAP_PROP_FPS = 1, CAP_PROP_FRAME_COUNT = 3,
                      decoded = [''f0'', ''f1'', ''f2'']\<rparr>),
      cv2_imwrite = (\<lambda>w p i. (None, w)),
      Image_open =
        (\<lambda>w p. if p = ''output/frame_BAD_2.jpg'' then Inl ''cannot identify image file''
                else Inr p),
      Image_save = (\<lambda>w i p. (None, w)),
      generate_content =
        (\<lambda>w d i. case d of
                    DetectionDirective \<Rightarrow>
                      if i = ''output/frame_ABC_0.jpg'' \<or> i = ''output/frame_BAD_0.jpg''
                      then (Inr ''{...}'', w)
                      else if i = ''output/frame_ODD_0.jpg'' then (Inr items_reply, w)
                      else if i = ''output/frame_ODD_2.jpg'' then (Inr array_reply, w)
                      else (Inr ''I see a phone'', w)
                  | _ \<Rightarrow> (Inr ''ok'', w)),
      json_loads =
        (\<lambda>t. if t = ''{...}'' then Some detection_reply
             else if t = items_reply then Some (JObj [(''items'', JArr [])])
             else if t = array_reply then Some (JArr [JStr ''a product''])
             else None)\<rparr>"

text \<open>
The states that four runs on this environment go through: a run on
  \<open>''https://youtu.be/ABC''\<close> in which no stage fails, a run on
  \<open>''https://example.com/clip''\<close> in which the download fails, a run on
  \<open>''https://youtu.be/BAD''\<close> in which the detector fails on the second frame, and a
  run on \<open>''https://youtu.be/ODD''\<close> in which the model answers with JSON of another
  structure.
\<close>

definition abc_frames :: "frame list" where
  "abc_frames =
     [\<lparr>frame_number = 0, frame_timestamp = 0, image_path = ''output/frame_ABC_0.jpg'',
       products_detected = []\<rparr>,
      \<lparr>frame_number = 2, frame_timestamp = 2, image_path = ''output/frame_ABC_2.jpg'',
       products_detected = []\<rparr>]"

definition abc_s1 :: State where
  "abc_s1 = \<lparr>url = ''https://youtu.be/ABC'', video_id = ''ABC'',
     video_path = ''output/video_ABC.mp4'', frames = [], products = [], error = None\<rparr>"

definition abc_s2 :: State where
  "abc_s2 = abc_s1\<lparr>frames := abc_frames\<rparr>"

definition red_mug :: ProductInfo where
  "red_mug = \<lparr>name = JStr ''Red Mug'', confidence = JNum (9 / 10),
     description = JStr ''a mug'', timestamp = 0, frame_image_path = [],
     segmented_image_path = [], enhanced_images = []\<rparr>"

definition phone :: ProductInfo where
  "phone = \<lparr>name = JStr ''Detected Product'', confidence = JNum (6 / 10),
     description = JStr ''I see a phone'', timestamp = 2, frame_image_path = [],
     segmented_image_path = [], enhanced_images = []\<rparr>"

definition abc_s3 :: State where
  "abc_s3 = abc_s2\<lparr>frames := [(abc_frames ! 0)\<lparr>products_detected := [0]\<rparr>,
                               (abc_frames ! 1)\<lparr>products_detected := [1]\<rparr>],
                    products := [red_mug, phone]\<rparr>"

definition abc_s4 :: State where
  "abc_s4 = abc_s3\<lparr>products :=
     [red_mug\<lparr>segmented_image_path := ''/output/segmented_Red_Mug_0.jpg'',
              frame_image_path := ''/output/frame_ABC_0.jpg''\<rparr>,
      phone\<lparr>segmented_image_path := ''/output/segmented_Detected_Product_2.jpg'',
            frame_image_path := ''/output/frame_ABC_2.jpg''\<rparr>]\<rparr>"

definition clip_s1 :: State where
  "clip_s1 = \<lparr>url = ''https://example.com/clip'', video_id = ''unknown'',
     video_path = ''output/video_unknown.mp4'', frames = [], products = [],
     error = Some ''Video extraction failed: download error''\<rparr>"

definition clip_s2 :: State where
  "clip_s2 = clip_s1\<lparr>error := Some ''Frame extraction failed: float division by zero''\<rparr>"

definition bad_frames :: "frame list" where
  "bad_frames =
     [\<lparr>frame_number = 0, frame_timestamp = 0, image_path = ''output/frame_BAD_0.jpg'',
       products_detected = []\<rparr>,
      \<lparr>frame_number = 2, frame_timestamp = 2, image_path = ''output/frame_BAD_2.jpg'',
       products_detected = []\<rparr>]"

definition bad_s2 :: State where
  "bad_s2 = \<lparr>url = ''https://youtu.be/BAD'', video_id = ''BAD'',
     video_path = ''output/video_BAD.mp4'', frames = bad_frames, products = [],
     error = None\<rparr>"

definition bad_s3 :: State where
  "bad_s3 = bad_s2\<lparr>frames := [(bad_frames ! 0)\<lparr>products_detected := [0]\<rparr>, bad_frames ! 1],
                    products := [red_mug],
                    error := Some ''Product identification failed: cannot identify image file''\<rparr>"




section \<open>Floating-point comparison\<close>

text \<open>The comparison \<^verbatim>\<open>abs(a - b) < 1.0\<close> on doubles holds exactly when the real
  difference is below \<open>1 - 1 / 2 ^ 54\<close>: from there on the difference rounds to 1.\<close>

lemma round_half_even_bounds:
  "\<lfloor>y\<rfloor> \<le> round_half_even y" "round_half_even y \<le> \<lfloor>y\<rfloor> + 1"
  by (simp_all add: round_half_even_def)

lemma round_half_even_top:
  assumes "odd N" and "real_of_int N \<le> y" and "y < real_of_int N + 1"
  shows "round_half_even y \<le> N \<longleftrightarrow> y < real_of_int N + 1 / 2"
proof -
  from assms(2,3) have fl: "\<lfloor>y\<rfloor> = N" by linarith
  with assms(1) show ?thesis
    by (auto simp: round_half_even_def)
qed

lemma abs_diff_below_one_iff:
  "abs_diff_below_one a b \<longleftrightarrow> \<bar>a - b\<bar> < 1 - 1 / 2 ^ 54"
proof -
  define d where "d = \<bar>a - b\<bar>"
  consider "d < 1 / 2" | "1 \<le> d" | "1 / 2 \<le> d" "d < 1" by linarith
  then have "(if d < 1 / 2 then True
         else if 1 \<le> d then False
         else real_of_int (round_half_even (d * 2 ^ 53)) / 2 ^ 53 < 1)
      \<longleftrightarrow> d < 1 - 1 / 2 ^ 54"
  proof cases
    case 1
    then show ?thesis by simp
  next
    case 2
    then show ?thesis by simp
  next
    case 3
    define y where "y = d * 2 ^ 53"
    define N :: int where "N = 2 ^ 53 - 1"
    have oddN: "odd N" by (simp add: N_def)
    have rN: "real_of_int N = 2 ^ 53 - 1" by (simp add: N_def)
    have lt: "real_of_int (round_half_even y) / 2 ^ 53 < 1 \<longleftrightarrow> round_half_even y \<le> N"
    proof -
      have "real_of_int (round_half_even y) / 2 ^ 53 < 1
          \<longleftrightarrow> real_of_int (round_half_even y) < 2 ^ 53"
        by (simp add: divide_less_eq)
      also have "\<dots> \<longleftrightarrow> round_half_even y < 2 ^ 53"
        by (metis of_int_less_iff of_int_numeral of_int_power)
      also have "\<dots> \<longleftrightarrow> round_half_even y \<le> N" unfolding N_def by linarith
      finally show ?thesis .
    qed
    have dy: "d < 1 - 1 / 2 ^ 54 \<longleftrightarrow> y < real_of_int N + 1 / 2"
      unfolding y_def rN by (simp add: field_simps)
    have ylt: "y < real_of_int N + 1" using 3(2) unfolding y_def rN by simp
    have "round_half_even y \<le> N \<longleftrightarrow> y < real_of_int N + 1 / 2"
    proof (cases "real_of_int N \<le> y")
      case True
      from round_half_even_top [OF oddN True ylt] show ?thesis .
    next
      case False
      then have "\<lfloor>y\<rfloor> < N" by linarith
      with round_half_even_bounds(2) [of y] have "round_half_even y \<le> N" by linarith
      with False show ?thesis by simp
    qed
    with lt dy 3 show ?thesis unfolding y_def by simp
  qed
  then show ?thesis
    unfolding abs_diff_below_one_def d_def Let_def .
qed

lemma abs_diff_below_one_same: "abs_diff_below_one a a"
  by (simp add: abs_diff_below_one_iff)

section \<open>Identifier extraction\<close>

lemma py_split_nonempty: "py_split sep s \<noteq> []"
  by (induction sep s rule: py_split.induct) (auto split: list.splits)

lemma hd_py_split_no_occurrence:
  "\<not> sublist sep x \<Longrightarrow> hd (py_split sep x) = x"
proof (induction x)
  case Nil
  then show ?case by simp
next
  case (Cons c x)
  then have np: "\<not> prefix sep (c # x)" and nx: "\<not> sublist sep x"
    by (auto simp: sublist_Cons_right)
  from Cons.IH [OF nx] py_split_nonempty [of sep x] np show ?case
    by (auto split: list.splits)
qed

lemma hd_py_split_delim:
  "\<not> sublist sep x \<Longrightarrow> d \<notin> set sep \<Longrightarrow>
     hd (py_split sep (x @ d # r)) = x @ d # hd (py_split sep r)"
proof (induction x)
  case Nil
  then have "sep \<noteq> [] \<Longrightarrow> \<not> prefix sep (d # r)"
    by (cases sep) auto
  with py_split_nonempty [of sep r] show ?case
    by (auto split: list.splits)
next
  case (Cons c x)
  then have np: "\<not> prefix sep (c # x)" and nx: "\<not> sublist sep x"
    by (auto simp: sublist_Cons_right)
  have "\<not> prefix sep ((c # x) @ d # r)"
  proof
    assume "prefix sep ((c # x) @ d # r)"
    then consider "prefix sep (c # x)" | us where "sep = (c # x) @ us" "prefix us (d # r)"
      unfolding prefix_append by blast
    then show False
    proof cases
      case 1
      with np show False by simp
    next
      case 2
      with np Cons.prems(2) show False
        by (cases us) auto
    qed
  qed
  with Cons.IH [OF nx Cons.prems(2)] py_split_nonempty [of sep "x @ d # r"] show ?case
    by (auto split: list.splits)
qed

lemma py_split_first:
  "sep \<noteq> [] \<Longrightarrow> \<not> sublist sep (a @ butlast sep) \<Longrightarrow>
     py_split sep (a @ sep @ b) = a # py_split sep b"
proof (induction a)
  case Nil
  then obtain c cs where sep: "sep = c # cs" by (cases sep) auto
  then show ?case by simp
next
  case (Cons x a)
  from Cons.prems(1) obtain s' l where sep: "sep = s' @ [l]"
    by (cases sep rule: rev_cases) auto
  have nx: "\<not> sublist sep (a @ butlast sep)"
    using Cons.prems(2) by (auto simp: sublist_Cons_right)
  have np: "\<not> prefix sep ((x # a) @ s')"
    using Cons.prems(2) sep by (auto simp: sublist_Cons_right)
  have "\<not> prefix sep ((x # a) @ sep @ b)"
  proof
    assume "prefix sep ((x # a) @ sep @ b)"
    then have "prefix sep (((x # a) @ s') @ (l # b))"
      using sep by simp
    then consider "prefix sep ((x # a) @ s')"
      | us where "sep = ((x # a) @ s') @ us"
      unfolding prefix_append by blast
    then show False
    proof cases
      case 1
      with np show False by simp
    next
      case 2
      then have "length sep = length ((x # a) @ s') + length us"
        by (metis length_append)
      with sep have "us = []" by simp
      with 2 np show False by simp
    qed
  qed
  with Cons.IH [OF Cons.prems(1) nx] show ?case by simp
qed

lemma hd_py_split_char: "hd (py_split [d] s) = takeWhile (\<lambda>c. c \<noteq> d) s"
proof (induction s)
  case Nil
  then show ?case by simp
next
  case (Cons c s)
  with py_split_nonempty [of "[d]" s] show ?case
    by (auto split: list.splits)
qed

lemma py_index_split_1:
  "sep \<noteq> [] \<Longrightarrow> \<not> sublist sep (a @ butlast sep) \<Longrightarrow>
     py_index (py_split sep (a @ sep @ b)) 1 = Inr (hd (py_split sep b))"
  using py_split_nonempty [of sep b]
  by (cases "py_split sep b") (simp_all add: py_split_first py_index_def)

lemma py_index_split_0: "py_index (py_split [d] s) 0 = Inr (takeWhile (\<lambda>c. c \<noteq> d) s)"
  using py_split_nonempty [of "[d]" s] hd_py_split_char [of d s]
  by (cases "py_split [d] s") (simp_all add: py_index_def)

lemma takeWhile_until:
  "d \<notin> set x \<Longrightarrow> takeWhile (\<lambda>c. c \<noteq> d) (x @ d # r) = x"
  by (induction x) auto

lemma id_segment_delim:
  "\<not> sublist sep x \<Longrightarrow> d \<notin> set sep \<Longrightarrow> d \<notin> set x \<Longrightarrow>
     takeWhile (\<lambda>c. c \<noteq> d) (hd (py_split sep (x @ d # r))) = x"
  by (simp add: hd_py_split_delim takeWhile_until)

lemma id_segment_end:
  "\<not> sublist sep x \<Longrightarrow> d \<notin> set x \<Longrightarrow>
     takeWhile (\<lambda>c. c \<noteq> d) (hd (py_split sep x)) = x"
  by (auto simp: hd_py_split_no_occurrence takeWhile_eq_all_conv)

lemma extract_watch_query:
  assumes "\<not> sublist ''v='' (pre @ ''youtube.com/watch?v'')"
    and "\<not> sublist ''v='' xyz" and "CHR ''&'' \<notin> set xyz"
  shows "extract_video_id (pre @ ''youtube.com/watch?v='' @ xyz @ ''&'' @ rest) = Inr xyz"
proof -
  let ?u = "pre @ ''youtube.com/watch?v='' @ xyz @ ''&'' @ rest"
  have u: "?u = (pre @ ''youtube.com/watch?'') @ ''v='' @ (xyz @ CHR ''&'' # rest)"
    by simp
  have m: "sublist ''youtube.com/watch?v='' ?u"
    by (rule sublist_appendI)
  have "py_index (py_split ''v='' ?u) 1 = Inr (hd (py_split ''v='' (xyz @ CHR ''&'' # rest)))"
    unfolding u using assms(1) by (intro py_index_split_1) simp_all
  moreover have "takeWhile (\<lambda>c. c \<noteq> CHR ''&'') (hd (py_split ''v='' (xyz @ CHR ''&'' # rest))) = xyz"
    using assms(2,3) by (intro id_segment_delim) simp_all
  ultimately show ?thesis
    using m by (simp only: extract_video_id_def if_True sum.case py_index_split_0)
qed

lemma extract_shorts_query:
  assumes "\<not> sublist ''youtube.com/watch?v='' (pre @ ''youtube.com/shorts/'' @ xyz @ ''?'' @ rest)"
    and "\<not> sublist ''shorts/'' (pre @ ''youtube.com/shorts'')"
    and "\<not> sublist ''shorts/'' xyz" and "CHR ''?'' \<notin> set xyz"
  shows "extract_video_id (pre @ ''youtube.com/shorts/'' @ xyz @ ''?'' @ rest) = Inr xyz"
proof -
  let ?u = "pre @ ''youtube.com/shorts/'' @ xyz @ ''?'' @ rest"
  have u: "?u = (pre @ ''youtube.com/'') @ ''shorts/'' @ (xyz @ CHR ''?'' # rest)"
    by simp
  have m: "sublist ''youtube.com/shorts/'' ?u"
    by (rule sublist_appendI)
  have "py_index (py_split ''shorts/'' ?u) 1 = Inr (hd (py_split ''shorts/'' (xyz @ CHR ''?'' # rest)))"
    unfolding u using assms(2) by (intro py_index_split_1) simp_all
  moreover have "takeWhile (\<lambda>c. c \<noteq> CHR ''?'') (hd (py_split ''shorts/'' (xyz @ CHR ''?'' # rest))) = xyz"
    using assms(3,4) by (intro id_segment_delim) simp_all
  ultimately show ?thesis
    using m assms(1) by (simp only: extract_video_id_def if_True if_False sum.case py_index_split_0)
qed

lemma extract_short_domain:
  assumes "\<not> sublist ''youtube.com/watch?v='' (pre @ ''youtu.be/'' @ xyz)"
    and "\<not> sublist ''youtube.com/shorts/'' (pre @ ''youtu.be/'' @ xyz)"
    and "\<not> sublist ''youtu.be/'' (pre @ ''youtu.be'')"
    and "\<not> sublist ''youtu.be/'' xyz" and "CHR ''?'' \<notin> set xyz"
  shows "extract_video_id (pre @ ''youtu.be/'' @ xyz) = Inr xyz"
proof -
  let ?u = "pre @ ''youtu.be/'' @ xyz"
  have m: "sublist ''youtu.be/'' ?u"
    by (rule sublist_appendI)
  have "py_index (py_split ''youtu.be/'' ?u) 1 = Inr (hd (py_split ''youtu.be/'' xyz))"
    using assms(3) by (intro py_index_split_1) simp_all
  moreover have "takeWhile (\<lambda>c. c \<noteq> CHR ''?'') (hd (py_split ''youtu.be/'' xyz)) = xyz"
    using assms(4,5) by (intro id_segment_end) simp_all
  ultimately show ?thesis
    using m assms(1,2) by (simp only: extract_video_id_def if_True if_False sum.case py_index_split_0)
qed

text \<open>
  Claim C8. Identifier extraction on the three known URL shapes and on anything else.
  For a watch link \<open>pre @ ''youtube.com/watch?v='' @ xyz @ ''&'' @ rest\<close>, a shorts link
  \<open>pre @ ''youtube.com/shorts/'' @ xyz @ ''?'' @ rest\<close> and a short-domain link
  \<open>pre @ ''youtu.be/'' @ xyz\<close> the result is \<open>xyz\<close>; a URL holding none of the three
  markers gives \<open>''unknown''\<close>. The side conditions say that the URL has the shape it
  is listed under: the marker shown is the first occurrence of the text the source
  splits at, an earlier branch of the source does not apply, and the identifier holds
  neither the split text nor the delimiter that ends it.
\<close>

theorem extract_video_id_shapes:
  "(\<not> sublist ''v='' (pre @ ''youtube.com/watch?v'') \<and> \<not> sublist ''v='' xyz \<and> CHR ''&'' \<notin> set xyz
      \<longrightarrow> extract_video_id (pre @ ''youtube.com/watch?v='' @ xyz @ ''&'' @ rest) = Inr xyz)
   \<and> (\<not> sublist ''youtube.com/watch?v='' (pre @ ''youtube.com/shorts/'' @ xyz @ ''?'' @ rest)
      \<and> \<not> sublist ''shorts/'' (pre @ ''youtube.com/shorts'')
      \<and> \<not> sublist ''shorts/'' xyz \<and> CHR ''?'' \<notin> set xyz
      \<longrightarrow> extract_video_id (pre @ ''youtube.com/shorts/'' @ xyz @ ''?'' @ rest) = Inr xyz)
   \<and> (\<not> sublist ''youtube.com/watch?v='' (pre @ ''youtu.be/'' @ xyz)
      \<and> \<not> sublist ''youtube.com/shorts/'' (pre @ ''youtu.be/'' @ xyz)
      \<and> \<not> sublist ''youtu.be/'' (pre @ ''youtu.be'')
      \<and> \<not> sublist ''youtu.be/'' xyz \<and> CHR ''?'' \<notin> set xyz
      \<longrightarrow> extract_video_id (pre @ ''youtu.be/'' @ xyz) = Inr xyz)
   \<and> (\<not> sublist ''youtube.com/watch?v='' u \<and> \<not> sublist ''youtube.com/shorts/'' u
      \<and> \<not> sublist ''youtu.be/'' u
      \<longrightarrow> extract_video_id u = Inr ''unknown'')"
  using extract_watch_query [of pre xyz rest] extract_shorts_query [of pre xyz rest]
    extract_short_domain [of pre xyz]
  by (simp add: extract_video_id_def)

theorem extract_video_id_shapes_witness:
  "extract_video_id ''https://www.youtube.com/watch?v=XYZ&t=5'' = Inr ''XYZ''
   \<and> extract_video_id ''https://www.youtube.com/shorts/XYZ?x=1'' = Inr ''XYZ''
   \<and> extract_video_id ''https://youtu.be/XYZ'' = Inr ''XYZ''
   \<and> extract_video_id ''https://example.com/clip'' = Inr ''unknown''"
  using extract_video_id_shapes [of "''https://www.''" "''XYZ''" "''t=5''" "''https://example.com/clip''"]
    extract_video_id_shapes [of "''https://www.''" "''XYZ''" "''x=1''" "''https://example.com/clip''"]
    extract_video_id_shapes [of "''https://''" "''XYZ''" "[]" "''https://example.com/clip''"]
  by (simp add: sublist_code)

section \<open>Runs on the concrete environment\<close>

lemma str_int_digits: "str_int 0 = ''0''" "str_int 1 = ''1''" "str_int 2 = ''2''" "str_int 3 = ''3''"
  by (simp_all add: str_int_def str_nat.simps)

lemma py_int_numerals: "py_int 0 = 0" "py_int 2 = 2"
  by (simp_all add: py_int_def)

lemma abc_stage1:
  "extract_video demo_env () (initial_state ''https://youtu.be/ABC'') = ((), abc_s1)"
  by (simp add: extract_video_def extract_video_id_def py_index_def sublist_code
      demo_env_def initial_state_def abc_s1_def)

lemma abc_stage2: "extract_frames demo_env () abc_s1 = ((), abc_s2)"
  by (simp add: extract_frames_def frame_interval_def py_int_def frame_path_def str_int_digits
      demo_env_def abc_s1_def abc_s2_def abc_frames_def)

lemma found_phone: "keyword_found ''I see a phone''"
  by (simp add: keyword_found_def fallback_keywords_def py_lower_def lower_char_def sublist_code)

lemma abc_stage3: "identify_products demo_env () abc_s2 = ((), abc_s3)"
  by (simp add: identify_products_def detect_frame_def parse_response_def found_phone
      fallback_product_def dict_get_def dict_item_def detection_reply_def
      items_reply_def array_reply_def
      demo_env_def abc_s1_def abc_s2_def abc_s3_def abc_frames_def red_mug_def phone_def)

lemma abc_stage4: "segment_products demo_env () abc_s3 = ((), abc_s4)"
  by (simp add: segment_products_def segment_product_def find_frame_def abs_diff_below_one_iff
      public_frame_path_def
      segmented_name_def str_int_digits py_int_numerals
      demo_env_def abc_s1_def abc_s2_def abc_s3_def abc_s4_def abc_frames_def red_mug_def phone_def)

lemma abc_stage5:
  "enhance_loop demo_env () (products abc_s4) =
     ((), [(products abc_s4 ! 0)\<lparr>enhanced_images :=
              [''/output/enhanced_Red_Mug_1_0.jpg'', ''/output/enhanced_Red_Mug_2_0.jpg'',
               ''/output/enhanced_Red_Mug_3_0.jpg'']\<rparr>,
           (products abc_s4 ! 1)\<lparr>enhanced_images :=
              [''/output/enhanced_Detected_Product_1_2.jpg'',
               ''/output/enhanced_Detected_Product_2_2.jpg'',
               ''/output/enhanced_Detected_Product_3_2.jpg'']\<rparr>], None)"
  by (simp add: enhance_product_def styles_def enhanced_name_def str_int_digits py_int_numerals
      demo_env_def abc_s1_def abc_s2_def abc_s3_def abc_s4_def abc_frames_def red_mug_def phone_def)

lemma clip_stage1:
  "extract_video demo_env () (initial_state ''https://example.com/clip'') = ((), clip_s1)"
  by (simp add: extract_video_def extract_video_id_def sublist_code
      demo_env_def initial_state_def clip_s1_def)

lemma clip_stage2: "extract_frames demo_env () clip_s1 = ((), clip_s2)"
  by (simp add: extract_frames_def demo_env_def clip_s1_def clip_s2_def)

lemma clip_stage3: "identify_products demo_env () clip_s2 = ((), clip_s2)"
  by (simp add: identify_products_def clip_s1_def clip_s2_def)

lemma clip_stage4: "segment_products demo_env () clip_s2 = ((), clip_s2)"
  by (simp add: segment_products_def clip_s1_def clip_s2_def)

lemma clip_stage5: "enhance_products demo_env () clip_s2 = ((), clip_s2)"
  by (simp add: enhance_products_def clip_s1_def clip_s2_def)

lemma bad_stage12:
  "extract_frames demo_env ()
     (snd (extract_video demo_env () (initial_state ''https://youtu.be/BAD''))) = ((), bad_s2)"
  by (simp add: extract_video_def extract_video_id_def py_index_def sublist_code
      extract_frames_def frame_interval_def py_int_def frame_path_def str_int_digits
      demo_env_def initial_state_def bad_s2_def bad_frames_def)

lemma bad_stage3: "identify_products demo_env () bad_s2 = ((), bad_s3)"
  by (simp add: identify_products_def detect_frame_def parse_response_def
      dict_get_def dict_item_def detection_reply_def
      demo_env_def bad_s2_def bad_s3_def bad_frames_def red_mug_def)




lemma bad_stage4:
  "segment_products demo_env () bad_s3 =
     ((), bad_s3\<lparr>products :=
            [red_mug\<lparr>segmented_image_path := ''/output/segmented_Red_Mug_0.jpg'',
                     frame_image_path := ''/output/frame_BAD_0.jpg''\<rparr>]\<rparr>)"
  by (simp add: segment_products_def segment_product_def find_frame_def abs_diff_below_one_iff
      public_frame_path_def segmented_name_def str_int_digits py_int_numerals
      demo_env_def bad_s2_def bad_s3_def bad_frames_def red_mug_def)

section \<open>Acquisition\<close>

lemma py_split_length:
  "sep \<noteq> [] \<Longrightarrow> sublist sep u \<Longrightarrow> 2 \<le> length (py_split sep u)"
proof (induction u)
  case Nil
  then show ?case by simp
next
  case (Cons c cs)
  show ?case
  proof (cases "prefix sep (c # cs)")
    case True
    with Cons.prems(1) py_split_nonempty [of sep "drop (length sep) (c # cs)"]
    show ?thesis by (cases "py_split sep (drop (length sep) (c # cs))") simp_all
  next
    case False
    with Cons.prems(2) have "sublist sep cs" by (simp add: sublist_Cons_right)
    from Cons.IH [OF Cons.prems(1) this] False show ?thesis
      by (cases "py_split sep cs") simp_all
  qed
qed

lemma extract_video_id_returns: "\<exists>v. extract_video_id u = Inr v"
proof -
  have a: "sublist ''v='' u" if "sublist ''youtube.com/watch?v='' u"
  proof -
    have "sublist ''v='' ''youtube.com/watch?v=''" by (simp add: sublist_code)
    then show ?thesis using that by (rule sublist_order.order.trans)
  qed
  have b: "sublist ''shorts/'' u" if "sublist ''youtube.com/shorts/'' u"
  proof -
    have "sublist ''shorts/'' ''youtube.com/shorts/''" by (simp add: sublist_code)
    then show ?thesis using that by (rule sublist_order.order.trans)
  qed
  have i1: "\<exists>a. py_index (py_split sep u) 1 = Inr a" if "sublist sep u" "sep \<noteq> []" for sep
    using py_split_length [OF that(2,1)] by (simp add: py_index_def)
  show ?thesis
    using a b i1 [of "''v=''"] i1 [of "''shorts/''"] i1 [of "''youtu.be/''"]
    by (auto simp: extract_video_id_def py_index_split_0)
qed

lemma id_segment_empty_iff:
  assumes "d \<notin> set sep"
  shows "takeWhile (\<lambda>c. c \<noteq> d) (hd (py_split sep b)) = []
         \<longleftrightarrow> b = [] \<or> prefix [d] b \<or> (sep \<noteq> [] \<and> prefix sep b)"
proof (cases b)
  case Nil
  then show ?thesis by simp
next
  case (Cons c cs)
  show ?thesis
  proof (cases "sep \<noteq> [] \<and> prefix sep (c # cs)")
    case True
    with Cons show ?thesis by simp
  next
    case False
    with py_split_nonempty [of sep cs] have "hd (py_split sep (c # cs)) = c # hd (py_split sep cs)"
      by (cases "py_split sep cs") auto
    with False Cons show ?thesis by auto
  qed
qed

lemma extract_first_occurrence:
  assumes "sep \<noteq> []" and "\<not> sublist sep (a @ butlast sep)" and "d \<notin> set sep"
  shows "(case py_index (py_split sep (a @ sep @ b)) 1 of
            Inl e \<Rightarrow> Inl e
          | Inr s \<Rightarrow> py_index (py_split [d] s) 0)
         = Inr (takeWhile (\<lambda>c. c \<noteq> d) (hd (py_split sep b)))"
  using assms by (simp add: py_index_split_1 py_index_split_0 del: One_nat_def)

text \<open>
Claim C3, as amended. After the acquisition stage has returned without setting
  \<open>error\<close>, \<open>video_id\<close> is the identifier that extraction yields for the URL. It is
  \<open>''unknown''\<close> when the URL holds none of the three markers. For a URL of one of the
  three shapes, cut at the first occurrence of the text the source splits at
  (\<open>''v=''\<close>, \<open>''shorts/''\<close>, \<open>''youtu.be/''\<close>), the identifier is empty exactly when what
  follows the cut is empty, begins with the delimiter (\<open>''&''\<close>, \<open>''?''\<close>, \<open>''?''\<close>), or
  begins with the split text again. So it is non-empty in every other case.
\<close>

theorem acquisition_video_id:
  assumes "extract_video env w state = (w', state')" and "error state' = None"
  shows "extract_video_id (url state) = Inr (video_id state')
     \<and> (\<not> sublist ''youtube.com/watch?v='' (url state)
          \<and> \<not> sublist ''youtube.com/shorts/'' (url state)
          \<and> \<not> sublist ''youtu.be/'' (url state)
        \<longrightarrow> video_id state' = ''unknown'')
     \<and> (sublist ''youtube.com/watch?v='' (url state)
          \<and> url state = a @ ''v='' @ b \<and> \<not> sublist ''v='' (a @ ''v'')
        \<longrightarrow> (video_id state' = [] \<longleftrightarrow> b = [] \<or> prefix ''&'' b \<or> prefix ''v='' b))
     \<and> (\<not> sublist ''youtube.com/watch?v='' (url state)
          \<and> sublist ''youtube.com/shorts/'' (url state)
          \<and> url state = a @ ''shorts/'' @ b \<and> \<not> sublist ''shorts/'' (a @ ''shorts'')
        \<longrightarrow> (video_id state' = [] \<longleftrightarrow> b = [] \<or> prefix ''?'' b \<or> prefix ''shorts/'' b))
     \<and> (\<not> sublist ''youtube.com/watch?v='' (url state)
          \<and> \<not> sublist ''youtube.com/shorts/'' (url state)
          \<and> sublist ''youtu.be/'' (url state)
          \<and> url state = a @ ''youtu.be/'' @ b \<and> \<not> sublist ''youtu.be/'' (a @ ''youtu.be'')
        \<longrightarrow> (video_id state' = [] \<longleftrightarrow> b = [] \<or> prefix ''?'' b \<or> prefix ''youtu.be/'' b))"
proof -
  from assms have id: "extract_video_id (url state) = Inr (video_id state')"
    by (auto simp: extract_video_def Let_def split: sum.splits prod.splits option.splits if_splits)
  have unknown: "video_id state' = ''unknown''"
    if "\<not> sublist ''youtube.com/watch?v='' (url state)"
      "\<not> sublist ''youtube.com/shorts/'' (url state)" "\<not> sublist ''youtu.be/'' (url state)"
    using id that by (simp add: extract_video_id_def)
  have watch: "video_id state' = [] \<longleftrightarrow> b = [] \<or> prefix ''&'' b \<or> prefix ''v='' b"
    if "sublist ''youtube.com/watch?v='' (url state)" "url state = a @ ''v='' @ b"
      "\<not> sublist ''v='' (a @ ''v'')"
  proof -
    have "extract_video_id (url state)
        = Inr (takeWhile (\<lambda>c. c \<noteq> CHR ''&'') (hd (py_split ''v='' b)))"
      using that(1) extract_first_occurrence [of "''v=''" a "CHR ''&''" b] that(3)
      unfolding that(2) by (simp add: extract_video_id_def)
    with id have "video_id state' = takeWhile (\<lambda>c. c \<noteq> CHR ''&'') (hd (py_split ''v='' b))"
      by simp
    with id_segment_empty_iff [of "CHR ''&''" "''v=''" b] show ?thesis by simp
  qed
  have shorts: "video_id state' = [] \<longleftrightarrow> b = [] \<or> prefix ''?'' b \<or> prefix ''shorts/'' b"
    if "\<not> sublist ''youtube.com/watch?v='' (url state)"
      "sublist ''youtube.com/shorts/'' (url state)" "url state = a @ ''shorts/'' @ b"
      "\<not> sublist ''shorts/'' (a @ ''shorts'')"
  proof -
    have "extract_video_id (url state)
        = Inr (takeWhile (\<lambda>c. c \<noteq> CHR ''?'') (hd (py_split ''shorts/'' b)))"
      using that(1,2) extract_first_occurrence [of "''shorts/''" a "CHR ''?''" b] that(4)
      unfolding that(3) by (simp add: extract_video_id_def)
    with id have "video_id state' = takeWhile (\<lambda>c. c \<noteq> CHR ''?'') (hd (py_split ''shorts/'' b))"
      by simp
    with id_segment_empty_iff [of "CHR ''?''" "''shorts/''" b] show ?thesis by simp
  qed
  have short: "video_id state' = [] \<longleftrightarrow> b = [] \<or> prefix ''?'' b \<or> prefix ''youtu.be/'' b"
    if "\<not> sublist ''youtube.com/watch?v='' (url state)"
      "\<not> sublist ''youtube.com/shorts/'' (url state)"
      "sublist ''youtu.be/'' (url state)" "url state = a @ ''youtu.be/'' @ b"
      "\<not> sublist ''youtu.be/'' (a @ ''youtu.be'')"
  proof -
    have "extract_video_id (url state)
        = Inr (takeWhile (\<lambda>c. c \<noteq> CHR ''?'') (hd (py_split ''youtu.be/'' b)))"
      using that(1,2,3) extract_first_occurrence [of "''youtu.be/''" a "CHR ''?''" b] that(5)
      unfolding that(4) by (simp add: extract_video_id_def)
    with id have "video_id state' = takeWhile (\<lambda>c. c \<noteq> CHR ''?'') (hd (py_split ''youtu.be/'' b))"
      by simp
    with id_segment_empty_iff [of "CHR ''?''" "''youtu.be/''" b] show ?thesis by simp
  qed
  from id unknown watch shorts short show ?thesis by blast
qed

theorem acquisition_video_id_witness:
  "extract_video demo_env () (initial_state ''https://youtu.be/ABC'') = ((), abc_s1)
   \<and> error abc_s1 = None \<and> video_id abc_s1 = ''ABC''
   \<and> extract_video_id ''https://youtu.be/ABC'' = Inr ''ABC''"
proof -
  have e: "error abc_s1 = None" by (simp add: abc_s1_def)
  have u: "url (initial_state ''https://youtu.be/ABC'') = ''https://youtu.be/ABC''"
    by (simp add: initial_state_def)
  from acquisition_video_id [OF abc_stage1 e, of "''https://''" "''ABC''"] abc_stage1 e
  show ?thesis unfolding u by (simp add: abc_s1_def)
qed

text \<open>
Claim C3 as stated fails: acquisition succeeds on a watch link whose first \<open>''v=''\<close>
  has no value, and leaves the empty \<open>video_id\<close>.
\<close>

theorem empty_video_id_counterexample:
  "error (snd (extract_video demo_env ()
       (initial_state ''https://www.youtube.com/watch?v=&v=dQw4w9WgXcQ''))) = None
   \<and> video_id (snd (extract_video demo_env ()
       (initial_state ''https://www.youtube.com/watch?v=&v=dQw4w9WgXcQ''))) = []"
  by (simp add: extract_video_def extract_video_id_def py_index_def sublist_code
      demo_env_def initial_state_def)

section \<open>Sampling\<close>

lemma py_int_nonneg: "0 \<le> x \<Longrightarrow> py_int x = \<lfloor>x\<rfloor>"
  by (simp add: py_int_def)

lemma read_loop_invariant:
  assumes "read_loop env vid fps k w imgs n acc = (w', Inr fs)"
    and "0 \<le> n"
    and "\<forall>f\<in>set acc. 0 \<le> frame_number f \<and> frame_number f < n \<and> k dvd frame_number f
           \<and> frame_timestamp f = real_of_int (frame_number f) / fps"
    and "sorted_wrt (<) (map frame_number acc)"
  shows "(\<forall>f\<in>set fs. 0 \<le> frame_number f \<and> k dvd frame_number f
            \<and> frame_timestamp f = real_of_int (frame_number f) / fps)
         \<and> sorted_wrt (<) (map frame_number fs)"
  using assms
proof (induction imgs arbitrary: w n acc)
  case Nil
  then show ?case by auto
next
  case (Cons img rest)
  show ?case
  proof (cases "k = 0")
    case True
    with Cons.prems(1) show ?thesis by simp
  next
    case k: False
    show ?thesis
    proof (cases "n mod k = 0")
      case False
      with k Cons.prems(1) have run: "read_loop env vid fps k w rest (n + 1) acc = (w', Inr fs)"
        by simp
      from Cons.prems(3) have "\<forall>f\<in>set acc. 0 \<le> frame_number f \<and> frame_number f < n + 1
          \<and> k dvd frame_number f \<and> frame_timestamp f = real_of_int (frame_number f) / fps"
        by auto
      with Cons.IH [OF run _ _ Cons.prems(4)] Cons.prems(2) show ?thesis by simp
    next
      case True
      with k Cons.prems(1) obtain w1 where
        run: "read_loop env vid fps k w1 rest (n + 1)
               (acc @ [\<lparr>frame_number = n, frame_timestamp = real_of_int n / fps,
                        image_path = frame_path vid n, products_detected = []\<rparr>]) = (w', Inr fs)"
        by (auto split: if_splits prod.splits option.splits)
      let ?acc = "acc @ [\<lparr>frame_number = n, frame_timestamp = real_of_int n / fps,
                        image_path = frame_path vid n, products_detected = []\<rparr>]"
      from True have dvd: "k dvd n" by (simp add: dvd_eq_mod_eq_0)
      have inv: "\<forall>f\<in>set ?acc. 0 \<le> frame_number f \<and> frame_number f < n + 1
          \<and> k dvd frame_number f \<and> frame_timestamp f = real_of_int (frame_number f) / fps"
        using Cons.prems(2,3) dvd by auto
      have srt: "sorted_wrt (<) (map frame_number ?acc)"
        using Cons.prems(3,4) by (auto simp: sorted_wrt_append)
      from Cons.IH [OF run _ inv srt] Cons.prems(2) show ?thesis by simp
    qed
  qed
qed

lemma sorted_timestamps:
  assumes "0 < fps"
    and "\<forall>f\<in>set fs. frame_timestamp f = real_of_int (frame_number f) / fps"
    and "sorted_wrt (<) (map frame_number fs)"
  shows "sorted_wrt (<) (map frame_timestamp fs)"
proof -
  have "sorted_wrt (\<lambda>f g. frame_number f < frame_number g) fs"
    using assms(3) by (simp add: sorted_wrt_map)
  then have "sorted_wrt (\<lambda>f g. frame_timestamp f < frame_timestamp g) fs"
  proof (rule sorted_wrt_mono_rel [rotated])
    fix f g assume "f \<in> set fs" "g \<in> set fs" "frame_number f < frame_number g"
    with assms(1,2) show "frame_timestamp f < frame_timestamp g"
      by (simp add: divide_strict_right_mono)
  qed
  then show ?thesis by (simp add: sorted_wrt_map)
qed

text \<open>
Claim C9. The sampler either fails, changing nothing but \<open>error\<close>, or changes nothing
  but \<open>frames\<close> and stores a sequence in which every frame number is non-negative and a
  multiple of the stride and the frame numbers are strictly ascending; the timestamps
  are then strictly ascending too, for a positive frame rate.
\<close>

theorem sampled_frames_ascending_multiples:
  "(\<exists>e. snd (extract_frames env w state)
          = state\<lparr>error := Some (''Frame extraction failed: '' @ e)\<rparr>)
   \<or> (\<exists>k. frame_interval (CAP_PROP_FPS (cv2_VideoCapture env w (video_path state))) = Inr k
      \<and> snd (extract_frames env w state)
          = state\<lparr>frames := frames (snd (extract_frames env w state))\<rparr>
      \<and> (\<forall>f\<in>set (frames (snd (extract_frames env w state))).
            0 \<le> frame_number f \<and> k dvd frame_number f)
      \<and> sorted_wrt (<) (map frame_number (frames (snd (extract_frames env w state))))
      \<and> (0 < CAP_PROP_FPS (cv2_VideoCapture env w (video_path state))
           \<longrightarrow> sorted_wrt (<) (map frame_timestamp (frames (snd (extract_frames env w state))))))"
proof -
  let ?cap = "cv2_VideoCapture env w (video_path state)"
  let ?fps = "CAP_PROP_FPS ?cap"
  show ?thesis
  proof (cases "?fps = 0")
    case True
    then have "snd (extract_frames env w state)
          = state\<lparr>error := Some (''Frame extraction failed: '' @ ''float division by zero'')\<rparr>"
      by (simp add: extract_frames_def Let_def)
    then show ?thesis by blast
  next
    case fps: False
    show ?thesis
    proof (cases "frame_interval ?fps")
      case (Inl e)
      with fps have "snd (extract_frames env w state)
          = state\<lparr>error := Some (''Frame extraction failed: '' @ e)\<rparr>"
        by (simp add: extract_frames_def Let_def)
      then show ?thesis by blast
    next
      case k: (Inr k)
      obtain w' res where
        run: "read_loop env (video_id state) ?fps k w (decoded ?cap) 0 [] = (w', res)"
        by (cases "read_loop env (video_id state) ?fps k w (decoded ?cap) 0 []")
      show ?thesis
      proof (cases res)
        case (Inl e)
        with run fps k have "snd (extract_frames env w state)
            = state\<lparr>error := Some (''Frame extraction failed: '' @ e)\<rparr>"
          by (simp add: extract_frames_def Let_def)
        then show ?thesis by blast
      next
        case (Inr fs)
        with run fps k have st: "snd (extract_frames env w state) = state\<lparr>frames := fs\<rparr>"
          by (simp add: extract_frames_def Let_def)
        from run Inr have run': "read_loop env (video_id state) ?fps k w
            (decoded ?cap) 0 [] = (w', Inr fs)"
          by simp
        from read_loop_invariant [OF run'] have
          inv: "\<forall>f\<in>set fs. 0 \<le> frame_number f \<and> k dvd frame_number f
                  \<and> frame_timestamp f = real_of_int (frame_number f) / ?fps"
          and srt: "sorted_wrt (<) (map frame_number fs)"
          by simp_all
        have ts: "sorted_wrt (<) (map frame_timestamp fs)" if "0 < ?fps"
          using sorted_timestamps [OF that _ srt] inv by blast
        have fr: "frames (state\<lparr>frames := fs\<rparr>) = fs" by simp
        have "frame_interval ?fps = Inr k
            \<and> snd (extract_frames env w state)
                = state\<lparr>frames := frames (snd (extract_frames env w state))\<rparr>
            \<and> (\<forall>f\<in>set (frames (snd (extract_frames env w state))).
                  0 \<le> frame_number f \<and> k dvd frame_number f)
            \<and> sorted_wrt (<) (map frame_number (frames (snd (extract_frames env w state))))
            \<and> (0 < ?fps
                 \<longrightarrow> sorted_wrt (<) (map frame_timestamp (frames (snd (extract_frames env w state)))))"
          unfolding st fr using k inv srt ts by (intro conjI impI ballI) simp_all
        then show ?thesis by blast
      qed
    qed
  qed
qed

theorem sampled_frames_ascending_multiples_witness:
  "snd (extract_frames demo_env () abc_s1) = abc_s2
   \<and> frame_interval (CAP_PROP_FPS (cv2_VideoCapture demo_env () (video_path abc_s1))) = Inr 2
   \<and> map frame_number (frames abc_s2) = [0, 2]
   \<and> list_all (\<lambda>f. 0 \<le> frame_number f \<and> 2 dvd frame_number f) (frames abc_s2)
   \<and> sorted_wrt (<) (map frame_number (frames abc_s2))
   \<and> sorted_wrt (<) (map frame_timestamp (frames abc_s2))"
proof -
  have a: "snd (extract_frames demo_env () abc_s1) = abc_s2"
    by (simp add: abc_stage2)
  have b: "frame_interval (CAP_PROP_FPS (cv2_VideoCapture demo_env () (video_path abc_s1))) = Inr 2"
    by (simp add: demo_env_def abc_s1_def frame_interval_def py_int_def)
  have c: "map frame_number (frames abc_s2) = [0, 2]
      \<and> list_all (\<lambda>f. 0 \<le> frame_number f \<and> 2 dvd frame_number f) (frames abc_s2)
      \<and> sorted_wrt (<) (map frame_number (frames abc_s2))
      \<and> sorted_wrt (<) (map frame_timestamp (frames abc_s2))"
    by (simp add: abc_s2_def abc_frames_def)
  from sampled_frames_ascending_multiples [of demo_env "()" abc_s1] a b c
  show ?thesis by blast
qed






lemma overflow_stride_raises:
  "frame_interval (2 ^ 1023) = Inl ''cannot convert float infinity to integer''
   \<and> snd (extract_frames
            (demo_env\<lparr>cv2_VideoCapture :=
               \<lambda>w p. \<lparr>CAP_PROP_FPS = 2 ^ 1023, CAP_PROP_FRAME_COUNT = 3,
                      decoded = [''f0'', ''f1'', ''f2'']\<rparr>\<rparr>) () abc_s1)
       = abc_s1\<lparr>error :=
           Some ''Frame extraction failed: cannot convert float infinity to integer''\<rparr>"
  by (simp add: frame_interval_def extract_frames_def)

section \<open>Detection\<close>



















lemma candidates_loop_timestamp:
  assumes "candidates_loop ts cs prods det = (prods', det', r)"
  shows "\<exists>new. prods' = prods @ new \<and> (\<forall>p\<in>set new. timestamp p = ts \<and> enhanced_images p = [])"
  using assms
proof (induction cs arbitrary: prods det)
  case Nil
  then show ?case by simp
next
  case (Cons c cs)
  show ?case
  proof (cases "accept_candidate c")
    case (Inl e)
    with Cons.prems show ?thesis by simp
  next
    case (Inr b)
    show ?thesis
    proof (cases b)
      case False
      with Inr Cons.prems have "candidates_loop ts cs prods det = (prods', det', r)" by simp
      from Cons.IH [OF this] show ?thesis .
    next
      case True
      show ?thesis
      proof (cases "new_product c ts")
        case (Inl e)
        with True Inr Cons.prems show ?thesis by simp
      next
        case np: (Inr p)
        with True Inr Cons.prems
        have "candidates_loop ts cs (prods @ [p]) (det @ [length prods]) = (prods', det', r)"
          by simp
        from Cons.IH [OF this] obtain new where
          new: "prods' = (prods @ [p]) @ new" "\<forall>q\<in>set new. timestamp q = ts \<and> enhanced_images q = []"
          by blast
        have tp: "timestamp p = ts \<and> enhanced_images p = []"
          using np by (cases c) (auto split: sum.splits)
        have "prods' = prods @ (p # new)" using new(1) by simp
        moreover have "\<forall>q\<in>set (p # new). timestamp q = ts \<and> enhanced_images q = []"
          using new(2) tp by simp
        ultimately show ?thesis by blast
      qed
    qed
  qed
qed

lemma parse_response_timestamp:
  assumes "parse_response env text ts prods det = (prods', det', r)"
  shows "\<exists>new. prods' = prods @ new \<and> (\<forall>p\<in>set new. timestamp p = ts \<and> enhanced_images p = [])"
proof (cases "json_loads env text")
  case None
  show ?thesis
  proof (cases "keyword_found text")
    case True
    with None assms have "prods' = prods @ [fallback_product text ts]"
      by (simp add: parse_response_def)
    moreover have "timestamp (fallback_product text ts) = ts \<and> enhanced_images (fallback_product text ts) = []"
      by (simp add: fallback_product_def)
    ultimately show ?thesis by (intro exI [of _ "[fallback_product text ts]"]) simp
  next
    case False
    with None assms have "prods' = prods @ []" by (simp add: parse_response_def)
    then show ?thesis by (intro exI [of _ "[]"]) simp
  qed
next
  case (Some result)
  show ?thesis
  proof (cases "\<exists>kv. result = JObj kv")
    case False
    with Some assms have "prods' = prods @ []"
      by (cases result) (simp_all add: parse_response_def)
    then show ?thesis by (intro exI [of _ "[]"]) simp
  next
    case True
    then obtain kv where kv: "result = JObj kv" by blast
    show ?thesis
    proof (cases "py_iter (dict_get kv ''products'' (JArr []))")
      case (Inl e)
      with Some kv assms have "prods' = prods @ []" by (simp add: parse_response_def)
      then show ?thesis by (intro exI [of _ "[]"]) simp
    next
      case (Inr cs)
      with Some kv assms have "candidates_loop ts cs prods det = (prods', det', r)"
        by (simp add: parse_response_def)
      then show ?thesis by (rule candidates_loop_timestamp)
    qed
  qed
qed

lemma detect_frame_timestamp:
  assumes "detect_frame env w fr prods = (w', fr', prods', r)"
  shows "frame_timestamp fr' = frame_timestamp fr
         \<and> (\<exists>new. prods' = prods @ new \<and> (\<forall>p\<in>set new. timestamp p = frame_timestamp fr \<and> enhanced_images p = []))"
proof (cases "Image_open env w (image_path fr)")
  case (Inl e)
  with assms have "fr' = fr" "prods' = prods @ []" by (simp_all add: detect_frame_def)
  then show ?thesis by (intro conjI exI [of _ "[]"]) simp_all
next
  case (Inr img)
  obtain res w1 where gc: "generate_content env w DetectionDirective img = (res, w1)"
    by (cases "generate_content env w DetectionDirective img") auto
  show ?thesis
  proof (cases res)
    case (Inl e)
    with Inr gc assms have "fr' = fr" "prods' = prods @ []" by (simp_all add: detect_frame_def)
    then show ?thesis by (intro conjI exI [of _ "[]"]) simp_all
  next
    case tx: (Inr t)
    obtain ps1 det1 r1 where
      pr: "parse_response env t (frame_timestamp fr) prods (products_detected fr) = (ps1, det1, r1)"
      by (cases "parse_response env t (frame_timestamp fr) prods (products_detected fr)") auto
    with tx Inr gc assms have "fr' = fr\<lparr>products_detected := det1\<rparr>" "prods' = ps1"
      by (simp_all add: detect_frame_def)
    with parse_response_timestamp [OF pr] show ?thesis by simp
  qed
qed

lemma identify_loop_timestamps:
  assumes "identify_loop env w fs prods = (w', fs', prods', r)"
  shows "map frame_timestamp fs' = map frame_timestamp fs
         \<and> (\<exists>new. prods' = prods @ new
               \<and> (\<forall>p\<in>set new. (\<exists>f\<in>set fs. frame_timestamp f = timestamp p)
                     \<and> enhanced_images p = []))"
  using assms
proof (induction fs arbitrary: w w' fs' prods prods' r)
  case Nil
  then show ?case by simp
next
  case (Cons fr fs)
  obtain w1 fr1 ps1 r1 where df: "detect_frame env w fr prods = (w1, fr1, ps1, r1)"
    by (cases "detect_frame env w fr prods") auto
  from detect_frame_timestamp [OF df] obtain new1 where
    fr1: "frame_timestamp fr1 = frame_timestamp fr"
    and new1: "ps1 = prods @ new1" "\<forall>p\<in>set new1. timestamp p = frame_timestamp fr \<and> enhanced_images p = []"
    by blast
  show ?case
  proof (cases r1)
    case (Some e)
    with df Cons.prems have "fs' = fr1 # fs" "prods' = ps1" by simp_all
    with fr1 new1 show ?thesis by auto
  next
    case None
    obtain w2 fs2 ps2 r2 where il: "identify_loop env w1 fs ps1 = (w2, fs2, ps2, r2)"
      by (cases "identify_loop env w1 fs ps1") auto
    from Cons.IH [OF il] obtain new2 where
      fs2: "map frame_timestamp fs2 = map frame_timestamp fs"
      and new2: "ps2 = ps1 @ new2" "\<forall>p\<in>set new2. (\<exists>f\<in>set fs. frame_timestamp f = timestamp p) \<and> enhanced_images p = []"
      by blast
    from None df il Cons.prems have eq: "fs' = fr1 # fs2" "prods' = ps2" by simp_all
    have "prods' = prods @ (new1 @ new2)" using eq new1(1) new2(1) by simp
    moreover have "\<forall>p\<in>set (new1 @ new2). (\<exists>f\<in>set (fr # fs). frame_timestamp f = timestamp p)
        \<and> enhanced_images p = []"
      using new1(2) new2(2) by auto
    moreover have "map frame_timestamp fs' = map frame_timestamp (fr # fs)"
      using eq fr1 fs2 by simp
    ultimately show ?thesis by blast
  qed
qed

lemma find_frame_same_timestamp:
  assumes "f \<in> set fs" and "frame_timestamp f = timestamp p"
  shows "find_frame fs p \<noteq> None"
proof -
  from assms have "\<exists>f\<in>set fs. abs_diff_below_one (frame_timestamp f) (timestamp p)"
    by (intro bexI [of _ f]) (simp_all add: abs_diff_below_one_same)
  then show ?thesis by (auto simp: find_frame_def find_None_iff)
qed

text \<open>
Claim C10. Processing a frame appends only records whose timestamp is the timestamp of
  that frame, and leaves the timestamp of the frame as it was. Hence after the detector
  stage the timestamps of the frames are unchanged and every record the stage has
  appended has a frame at the same timestamp, so the search of the isolator finds a
  frame for it.
\<close>

theorem detected_products_have_frame:
  "(case detect_frame env w fr prods of
      (w', fr', prods', r) \<Rightarrow>
        frame_timestamp fr' = frame_timestamp fr
        \<and> (\<exists>new. prods' = prods @ new \<and> (\<forall>p\<in>set new. timestamp p = frame_timestamp fr)))
   \<and> (case identify_products env w state of
        (w', state') \<Rightarrow>
          map frame_timestamp (frames state') = map frame_timestamp (frames state)
          \<and> (\<exists>new. products state' = products state @ new
                \<and> (\<forall>p\<in>set new.
                      (\<exists>f\<in>set (frames state'). frame_timestamp f = timestamp p)
                      \<and> find_frame (frames state') p \<noteq> None)))"
proof -
  have a: "case detect_frame env w fr prods of
      (w', fr', prods', r) \<Rightarrow>
        frame_timestamp fr' = frame_timestamp fr
        \<and> (\<exists>new. prods' = prods @ new \<and> (\<forall>p\<in>set new. timestamp p = frame_timestamp fr))"
  proof -
    obtain w1 fr1 ps1 r1 where df: "detect_frame env w fr prods = (w1, fr1, ps1, r1)"
      by (cases "detect_frame env w fr prods") auto
    from detect_frame_timestamp [OF df] show ?thesis unfolding df by auto
  qed
  obtain w' fs' ps' r where
    il: "identify_loop env w (frames state) (products state) = (w', fs', ps', r)"
    by (cases "identify_loop env w (frames state) (products state)") auto
  from identify_loop_timestamps [OF il] obtain new where
    fs': "map frame_timestamp fs' = map frame_timestamp (frames state)"
    and new: "ps' = products state @ new"
      "\<forall>p\<in>set new. (\<exists>f\<in>set (frames state). frame_timestamp f = timestamp p)
         \<and> enhanced_images p = []"
    by blast
  have ex: "(\<exists>f\<in>set fs'. frame_timestamp f = timestamp p) \<and> find_frame fs' p \<noteq> None"
    if "p \<in> set new" for p
  proof -
    from that new(2) obtain f0 where "f0 \<in> set (frames state)" "frame_timestamp f0 = timestamp p"
      by blast
    then have "timestamp p \<in> set (map frame_timestamp (frames state))"
      by (metis image_eqI list.set_map)
    with fs' have "timestamp p \<in> set (map frame_timestamp fs')" by simp
    then obtain f where "f \<in> set fs'" "frame_timestamp f = timestamp p" by auto
    with find_frame_same_timestamp [of f fs' p] show ?thesis by blast
  qed
  obtain w'' state' where ip: "identify_products env w state = (w'', state')"
    by (cases "identify_products env w state") auto
  with il have st: "frames state' = fs'" "products state' = ps'"
    by (cases r; simp add: identify_products_def; fastforce)+
  have b: "case identify_products env w state of
        (w', state') \<Rightarrow>
          map frame_timestamp (frames state') = map frame_timestamp (frames state)
          \<and> (\<exists>new. products state' = products state @ new
                \<and> (\<forall>p\<in>set new.
                      (\<exists>f\<in>set (frames state'). frame_timestamp f = timestamp p)
                      \<and> find_frame (frames state') p \<noteq> None))"
    unfolding ip using st fs' new(1) ex by auto
  from a b show ?thesis by (rule conjI)
qed

theorem detected_products_have_frame_witness:
  "identify_products demo_env () abc_s2 = ((), abc_s3)
   \<and> products abc_s3 = products abc_s2 @ [red_mug, phone]
   \<and> find_frame (frames abc_s3) red_mug \<noteq> None
   \<and> find_frame (frames abc_s3) phone \<noteq> None"
proof -
  have p: "products abc_s3 = products abc_s2 @ [red_mug, phone]"
    by (simp add: abc_s3_def abc_s2_def abc_s1_def)
  from detected_products_have_frame
    [where env = demo_env and w = "()" and fr = "abc_frames ! 0" and prods = "[]"
       and state = abc_s2]
  have "\<exists>new. products abc_s3 = products abc_s2 @ new
      \<and> (\<forall>p\<in>set new. (\<exists>f\<in>set (frames abc_s3). frame_timestamp f = timestamp p)
            \<and> find_frame (frames abc_s3) p \<noteq> None)"
    by (simp add: abc_stage3)
  with p have "\<forall>p\<in>set [red_mug, phone]. find_frame (frames abc_s3) p \<noteq> None"
    by auto
  with p abc_stage3 show ?thesis by simp
qed

section \<open>Isolation\<close>

lemma find_frame_None:
  "find_frame fs p = None
     \<longleftrightarrow> (\<forall>f\<in>set fs. \<not> abs_diff_below_one (frame_timestamp f) (timestamp p))"
  by (auto simp: find_frame_def find_None_iff)

lemma find_frame_Some:
  "find_frame fs p = Some f \<longleftrightarrow>
     (\<exists>i<length fs. f = fs ! i \<and> abs_diff_below_one (frame_timestamp (fs ! i)) (timestamp p)
        \<and> (\<forall>j<i. \<not> abs_diff_below_one (frame_timestamp (fs ! j)) (timestamp p)))"
  unfolding find_frame_def find_Some_iff by blast

lemma segment_product_no_match:
  "find_frame fs p = None \<Longrightarrow> segment_product env w vid fs p = (w, p, None)"
  by (simp add: segment_product_def)

lemma segment_product_match:
  assumes "find_frame fs p = Some f" and "segment_product env w vid fs p = (w', p', None)"
  shows "\<exists>nm. name_replace (name p) = Inr nm
           \<and> p' = p\<lparr>segmented_image_path := ''/output/'' @ segmented_name nm (timestamp p),
                    frame_image_path := public_frame_path vid (frame_number f)\<rparr>"
  using assms
  by (auto simp: segment_product_def split: sum.splits prod.splits option.splits)

lemma segment_product_exception:
  "segment_product env w vid fs p = (w', p', Some e) \<Longrightarrow> p' = p"
  by (auto simp: segment_product_def split: sum.splits prod.splits option.splits)

lemma segment_loop_length:
  "segment_loop env w vid fs ps = (w', ps', r) \<Longrightarrow> length ps' = length ps"
proof (induction ps arbitrary: w w' ps' r)
  case Nil
  then show ?case by simp
next
  case (Cons p ps)
  obtain w1 p1 r1 where sp: "segment_product env w vid fs p = (w1, p1, r1)"
    by (cases "segment_product env w vid fs p") auto
  show ?case
  proof (cases r1)
    case (Some e)
    with sp Cons.prems show ?thesis by auto
  next
    case None
    obtain w2 ps2 r2 where sl: "segment_loop env w1 vid fs ps = (w2, ps2, r2)"
      by (cases "segment_loop env w1 vid fs ps") auto
    with None sp Cons.prems Cons.IH [OF sl] show ?thesis by auto
  qed
qed

lemma segment_loop_no_match:
  assumes "segment_loop env w vid fs ps = (w', ps', r)"
    and "i < length ps" and "find_frame fs (ps ! i) = None"
  shows "ps' ! i = ps ! i"
  using assms
proof (induction ps arbitrary: w w' ps' r i)
  case Nil
  then show ?case by simp
next
  case (Cons p ps)
  obtain w1 p1 r1 where sp: "segment_product env w vid fs p = (w1, p1, r1)"
    by (cases "segment_product env w vid fs p") auto
  show ?case
  proof (cases r1)
    case (Some e)
    with sp Cons.prems(1) segment_product_exception [of env w vid fs p w1 p1 e]
    show ?thesis by auto
  next
    case None
    obtain w2 ps2 r2 where sl: "segment_loop env w1 vid fs ps = (w2, ps2, r2)"
      by (cases "segment_loop env w1 vid fs ps") auto
    with None sp Cons.prems(1) have ps': "ps' = p1 # ps2" by simp
    show ?thesis
    proof (cases i)
      case 0
      with Cons.prems(3) sp segment_product_no_match [of fs p env w vid] ps'
      show ?thesis by simp
    next
      case (Suc k)
      with Cons.prems(2,3) Cons.IH [OF sl, of k] ps' show ?thesis by simp
    qed
  qed
qed

lemma segment_loop_all_no_match:
  "\<forall>p\<in>set ps. find_frame fs p = None \<Longrightarrow> segment_loop env w vid fs ps = (w, ps, None)"
  by (induction ps) (simp_all add: segment_product_no_match)

lemma segment_loop_match:
  assumes "segment_loop env w vid fs ps = (w', ps', None)"
    and "i < length ps" and "find_frame fs (ps ! i) = Some f"
  shows "\<exists>nm. name_replace (name (ps ! i)) = Inr nm
           \<and> ps' ! i = (ps ! i)\<lparr>segmented_image_path :=
                                  ''/output/'' @ segmented_name nm (timestamp (ps ! i)),
                                frame_image_path := public_frame_path vid (frame_number f)\<rparr>"
  using assms
proof (induction ps arbitrary: w w' ps' i)
  case Nil
  then show ?case by simp
next
  case (Cons p ps)
  obtain w1 p1 r1 where sp: "segment_product env w vid fs p = (w1, p1, r1)"
    by (cases "segment_product env w vid fs p") auto
  show ?case
  proof (cases r1)
    case (Some e)
    with sp Cons.prems(1) show ?thesis by simp
  next
    case None
    obtain w2 ps2 r2 where sl: "segment_loop env w1 vid fs ps = (w2, ps2, r2)"
      by (cases "segment_loop env w1 vid fs ps") auto
    with None sp Cons.prems(1) have ps': "ps' = p1 # ps2" and r2: "r2 = None" by simp_all
    show ?thesis
    proof (cases i)
      case 0
      with Cons.prems(3) have "find_frame fs p = Some f" by simp
      from segment_product_match [OF this sp [unfolded None]] 0 ps' show ?thesis by simp
    next
      case (Suc k)
      with Cons.prems(2,3) Cons.IH [OF sl [unfolded r2], of k] ps' show ?thesis by simp
    qed
  qed
qed

lemma segment_product_completes:
  assumes "\<forall>w p. \<exists>img. Image_open env w p = Inr img"
    and "\<forall>w d i. \<exists>t w'. generate_content env w d i = (Inr t, w')"
    and "\<forall>w i p. fst (Image_save env w i p) = None"
    and "name_replace (name p) = Inr nm"
  shows "\<exists>w'. segment_product env w vid fs p =
           (w',
            (case find_frame fs p of
               None \<Rightarrow> p
             | Some f \<Rightarrow>
                 p\<lparr>segmented_image_path := ''/output/'' @ segmented_name nm (timestamp p),
                   frame_image_path := public_frame_path vid (frame_number f)\<rparr>),
            None)"
proof (cases "find_frame fs p")
  case None
  then show ?thesis by (simp add: segment_product_def)
next
  case (Some f)
  from assms(1) obtain img where io: "Image_open env w (image_path f) = Inr img" by blast
  from assms(2) obtain t w1 where
    gc: "generate_content env w (IsolationDirective (name p)) img = (Inr t, w1)"
    by blast
  obtain r w2 where
    sv: "Image_save env w1 img (''output/'' @ segmented_name nm (timestamp p)) = (r, w2)"
    by (cases "Image_save env w1 img (''output/'' @ segmented_name nm (timestamp p))")
  with assms(3) have "r = None" by (metis fst_conv)
  with Some io gc sv assms(4) show ?thesis by (simp add: segment_product_def)
qed

lemma segment_loop_completes:
  assumes "\<forall>w p. \<exists>img. Image_open env w p = Inr img"
    and "\<forall>w d i. \<exists>t w'. generate_content env w d i = (Inr t, w')"
    and "\<forall>w i p. fst (Image_save env w i p) = None"
    and "\<forall>p\<in>set ps. \<exists>s. name p = JStr s"
  shows "\<exists>w'. segment_loop env w vid fs ps =
           (w',
            map (\<lambda>p. case find_frame fs p of
                        None \<Rightarrow> p
                      | Some f \<Rightarrow>
                          (case name p of
                             JStr s \<Rightarrow>
                               p\<lparr>segmented_image_path :=
                                   ''/output/''
                                   @ segmented_name (py_replace '' '' ''_'' s) (timestamp p),
                                 frame_image_path :=
                                   public_frame_path vid (frame_number f)\<rparr>
                           | _ \<Rightarrow> p)) ps,
            None)"
  using assms(4)
proof (induction ps arbitrary: w)
  case Nil
  show ?case by simp
next
  case (Cons p ps)
  from Cons.prems obtain s where s: "name p = JStr s" by auto
  then have nr: "name_replace (name p) = Inr (py_replace '' '' ''_'' s)" by simp
  from segment_product_completes [OF assms(1-3) nr, of w vid fs] obtain w1 where
    sp: "segment_product env w vid fs p =
           (w1,
            (case find_frame fs p of
               None \<Rightarrow> p
             | Some f \<Rightarrow>
                 p\<lparr>segmented_image_path :=
                     ''/output/'' @ segmented_name (py_replace '' '' ''_'' s) (timestamp p),
                   frame_image_path := public_frame_path vid (frame_number f)\<rparr>),
            None)"
    by blast
  from Cons.prems have "\<forall>p\<in>set ps. \<exists>s. name p = JStr s" by simp
  from Cons.IH [OF this, of w1] obtain w2 where
    sl: "segment_loop env w1 vid fs ps =
           (w2,
            map (\<lambda>p. case find_frame fs p of
                        None \<Rightarrow> p
                      | Some f \<Rightarrow>
                          (case name p of
                             JStr s \<Rightarrow>
                               p\<lparr>segmented_image_path :=
                                   ''/output/''
                                   @ segmented_name (py_replace '' '' ''_'' s) (timestamp p),
                                 frame_image_path :=
                                   public_frame_path vid (frame_number f)\<rparr>
                           | _ \<Rightarrow> p)) ps,
            None)"
    by blast
  from sp sl s show ?case by (simp split: option.splits)
qed

text \<open>
Claim C6. The test of the search is \<^verbatim>\<open>abs(frame["timestamp"] - product.timestamp) < 1.0\<close>
  on doubles, the subtraction rounded as the source rounds it.
  \<^item> The search finds no frame exactly when no frame of the sequence passes the test, and
    it finds the frame \<open>f\<close> exactly when \<open>f\<close> is the first frame of the sequence that passes it.
  \<^item> On the real numbers that the two doubles stand for, the test holds exactly when the
    distance is below \<open>1 - 1 / 2 ^ 54\<close>: a distance from there up to 1 rounds to 1.0.
  \<^item> When the loop of the stage over the products ends without an exception, the stage
    stores the products of the loop and changes nothing else; a product for which the
    search finds the frame \<open>f\<close> gets its two paths, the path of the isolated image from its
    name and timestamp and the path of the frame from the number of \<open>f\<close>, and a product for
    which the search finds no frame is left as it was.
  \<^item> When opening an image, asking the model and saving an image never raise and the name
    of every product is a string, the loop ends without an exception: the stage sets no
    error and the products it stores are the ones just described.
  \<^item> Whatever raises: the number of products is kept, every product without a frame is
    unchanged (its isolated image path as it was), and a state in which no product has a
    frame is returned unchanged, error included.
\<close>

theorem isolator_matching:
  "(find_frame fs p = None
      \<longleftrightarrow> (\<forall>f\<in>set fs. \<not> abs_diff_below_one (frame_timestamp f) (timestamp p)))
   \<and> (find_frame fs p = Some f \<longleftrightarrow>
        (\<exists>i<length fs. f = fs ! i
           \<and> abs_diff_below_one (frame_timestamp (fs ! i)) (timestamp p)
           \<and> (\<forall>j<i. \<not> abs_diff_below_one (frame_timestamp (fs ! j)) (timestamp p))))
   \<and> (abs_diff_below_one a b \<longleftrightarrow> \<bar>a - b\<bar> < 1 - 1 / 2 ^ 54)
   \<and> (segment_loop env w (video_id state) (frames state) (products state) = (w', ps', None)
        \<longrightarrow> segment_products env w state = (w', state\<lparr>products := ps'\<rparr>)
            \<and> length ps' = length (products state)
            \<and> (\<forall>i<length (products state).
                  (\<forall>g. find_frame (frames state) (products state ! i) = Some g \<longrightarrow>
                     (\<exists>nm. name_replace (name (products state ! i)) = Inr nm
                        \<and> ps' ! i = (products state ! i)
                            \<lparr>segmented_image_path :=
                               ''/output/''
                               @ segmented_name nm (timestamp (products state ! i)),
                             frame_image_path :=
                               public_frame_path (video_id state) (frame_number g)\<rparr>))
                  \<and> (find_frame (frames state) (products state ! i) = None
                       \<longrightarrow> ps' ! i = products state ! i)))
   \<and> ((\<forall>w p. \<exists>img. Image_open env w p = Inr img)
        \<and> (\<forall>w d i. \<exists>t w'. generate_content env w d i = (Inr t, w'))
        \<and> (\<forall>w i p. fst (Image_save env w i p) = None)
        \<and> (\<forall>q\<in>set (products state). \<exists>s. name q = JStr s)
        \<longrightarrow> snd (segment_products env w state)
            = state\<lparr>products :=
                map (\<lambda>q. case find_frame (frames state) q of
                            None \<Rightarrow> q
                          | Some g \<Rightarrow>
                              (case name q of
                                 JStr s \<Rightarrow>
                                   q\<lparr>segmented_image_path :=
                                       ''/output/''
                                       @ segmented_name (py_replace '' '' ''_'' s) (timestamp q),
                                     frame_image_path :=
                                       public_frame_path (video_id state) (frame_number g)\<rparr>
                               | _ \<Rightarrow> q))
                  (products state)\<rparr>)
   \<and> length (products (snd (segment_products env w state))) = length (products state)
   \<and> (\<forall>i<length (products state). find_frame (frames state) (products state ! i) = None
        \<longrightarrow> products (snd (segment_products env w state)) ! i = products state ! i)
   \<and> ((\<forall>q\<in>set (products state). find_frame (frames state) q = None)
        \<longrightarrow> segment_products env w state = (w, state))"
proof -
  obtain w1 ps1 r where
    sl: "segment_loop env w (video_id state) (frames state) (products state) = (w1, ps1, r)"
    by (cases "segment_loop env w (video_id state) (frames state) (products state)") auto
  then have ps: "products (snd (segment_products env w state)) = ps1"
    by (cases r) (simp_all add: segment_products_def)
  have a: "length (products (snd (segment_products env w state))) = length (products state)"
    using segment_loop_length [OF sl] ps by simp
  have b: "\<forall>i<length (products state). find_frame (frames state) (products state ! i) = None
        \<longrightarrow> products (snd (segment_products env w state)) ! i = products state ! i"
    using segment_loop_no_match [OF sl] ps by simp
  have c: "segment_products env w state = (w, state)"
    if "\<forall>q\<in>set (products state). find_frame (frames state) q = None"
    using segment_loop_all_no_match [OF that, of env w "video_id state"]
    by (simp add: segment_products_def)
  have d: "segment_products env w state = (w', state\<lparr>products := ps'\<rparr>)
      \<and> length ps' = length (products state)
      \<and> (\<forall>i<length (products state).
            (\<forall>g. find_frame (frames state) (products state ! i) = Some g \<longrightarrow>
               (\<exists>nm. name_replace (name (products state ! i)) = Inr nm
                  \<and> ps' ! i = (products state ! i)
                      \<lparr>segmented_image_path :=
                         ''/output/'' @ segmented_name nm (timestamp (products state ! i)),
                       frame_image_path :=
                         public_frame_path (video_id state) (frame_number g)\<rparr>))
            \<and> (find_frame (frames state) (products state ! i) = None
                 \<longrightarrow> ps' ! i = products state ! i))"
    if run: "segment_loop env w (video_id state) (frames state) (products state)
               = (w', ps', None)"
  proof (intro conjI allI impI)
    from run show "segment_products env w state = (w', state\<lparr>products := ps'\<rparr>)"
      by (simp add: segment_products_def)
  next
    from segment_loop_length [OF run] show "length ps' = length (products state)" .
  next
    fix i g
    assume "i < length (products state)"
      and "find_frame (frames state) (products state ! i) = Some g"
    from segment_loop_match [OF run this]
    show "\<exists>nm. name_replace (name (products state ! i)) = Inr nm
        \<and> ps' ! i = (products state ! i)
            \<lparr>segmented_image_path :=
               ''/output/'' @ segmented_name nm (timestamp (products state ! i)),
             frame_image_path := public_frame_path (video_id state) (frame_number g)\<rparr>" .
  next
    fix i
    assume "i < length (products state)"
      and "find_frame (frames state) (products state ! i) = None"
    from segment_loop_no_match [OF run this] show "ps' ! i = products state ! i" .
  qed
  have e: "snd (segment_products env w state)
      = state\<lparr>products :=
          map (\<lambda>q. case find_frame (frames state) q of
                      None \<Rightarrow> q
                    | Some g \<Rightarrow>
                        (case name q of
                           JStr s \<Rightarrow>
                             q\<lparr>segmented_image_path :=
                                 ''/output/''
                                 @ segmented_name (py_replace '' '' ''_'' s) (timestamp q),
                               frame_image_path :=
                                 public_frame_path (video_id state) (frame_number g)\<rparr>
                         | _ \<Rightarrow> q))
            (products state)\<rparr>"
    if h: "(\<forall>w p. \<exists>img. Image_open env w p = Inr img)
        \<and> (\<forall>w d i. \<exists>t w'. generate_content env w d i = (Inr t, w'))
        \<and> (\<forall>w i p. fst (Image_save env w i p) = None)
        \<and> (\<forall>q\<in>set (products state). \<exists>s. name q = JStr s)"
  proof -
    from h have h1: "\<forall>w p. \<exists>img. Image_open env w p = Inr img"
      and h2: "\<forall>w d i. \<exists>t w'. generate_content env w d i = (Inr t, w')"
      and h3: "\<forall>w i p. fst (Image_save env w i p) = None"
      and h4: "\<forall>q\<in>set (products state). \<exists>s. name q = JStr s"
      by blast+
    from segment_loop_completes [OF h1 h2 h3 h4, of w "video_id state" "frames state"]
    show ?thesis by (auto simp: segment_products_def)
  qed
  show ?thesis
    apply (intro conjI)
           apply (rule find_frame_None)
          apply (rule find_frame_Some)
         apply (rule abs_diff_below_one_iff)
    using d apply blast
    using e apply blast
      apply (rule a)
     apply (rule b)
    using c apply blast
    done
qed

theorem isolator_matching_witness:
  "find_frame abc_frames phone = Some (abc_frames ! 1)
   \<and> abs_diff_below_one (frame_timestamp (abc_frames ! 1)) (timestamp phone)
   \<and> \<not> abs_diff_below_one (frame_timestamp (abc_frames ! 0)) (timestamp phone)
   \<and> find_frame [abc_frames ! 1, (abc_frames ! 1)\<lparr>frame_number := 3, frame_timestamp := 5 / 2\<rparr>]
         phone = Some (abc_frames ! 1)
   \<and> abs_diff_below_one (5 / 2) (timestamp phone)
   \<and> (\<forall>w p. \<exists>img. Image_open (demo_env\<lparr>Image_open := \<lambda>w p. Inr p\<rparr>) w p = Inr img)
   \<and> segment_loop demo_env () (video_id abc_s3) (frames abc_s3) (products abc_s3)
       = ((), products abc_s4, None)
   \<and> segment_products demo_env () abc_s3 = ((), abc_s4)
   \<and> snd (segment_products (demo_env\<lparr>Image_open := \<lambda>w p. Inr p\<rparr>) () abc_s3) = abc_s4
   \<and> products abc_s4 =
       [red_mug\<lparr>segmented_image_path := ''/output/segmented_Red_Mug_0.jpg'',
                frame_image_path := ''/output/frame_ABC_0.jpg''\<rparr>,
        phone\<lparr>segmented_image_path := ''/output/segmented_Detected_Product_2.jpg'',
              frame_image_path := ''/output/frame_ABC_2.jpg''\<rparr>]
   \<and> find_frame (frames abc_s3) (phone\<lparr>timestamp := 5\<rparr>) = None
   \<and> segment_products demo_env () (abc_s3\<lparr>products := [phone\<lparr>timestamp := 5\<rparr>]\<rparr>)
       = ((), abc_s3\<lparr>products := [phone\<lparr>timestamp := 5\<rparr>]\<rparr>)
   \<and> segmented_image_path (phone\<lparr>timestamp := 5\<rparr>) = []"
proof -
  let ?env = "demo_env\<lparr>Image_open := \<lambda>w p. Inr p\<rparr>"
  let ?far = "abc_s3\<lparr>products := [phone\<lparr>timestamp := 5\<rparr>]\<rparr>"
  have a: "find_frame abc_frames phone = Some (abc_frames ! 1)"
    "find_frame [abc_frames ! 1, (abc_frames ! 1)\<lparr>frame_number := 3, frame_timestamp := 5 / 2\<rparr>]
       phone = Some (abc_frames ! 1)"
    "abs_diff_below_one (5 / 2) (timestamp phone)"
    by (simp_all add: find_frame_def abs_diff_below_one_iff abc_frames_def phone_def)
  from isolator_matching [where fs = abc_frames and p = phone and f = "abc_frames ! 1"] a(1)
  have b: "abs_diff_below_one (frame_timestamp (abc_frames ! 1)) (timestamp phone)
      \<and> \<not> abs_diff_below_one (frame_timestamp (abc_frames ! 0)) (timestamp phone)"
    by (simp add: abs_diff_below_one_iff abc_frames_def phone_def)
  have c: "segment_loop demo_env () (video_id abc_s3) (frames abc_s3) (products abc_s3)
       = ((), products abc_s4, None)"
    by (simp add: segment_product_def find_frame_def abs_diff_below_one_iff
        public_frame_path_def segmented_name_def str_int_digits py_int_numerals
        demo_env_def abc_s1_def abc_s2_def abc_s3_def abc_s4_def abc_frames_def red_mug_def
        phone_def)
  have s4: "abc_s3\<lparr>products := products abc_s4\<rparr> = abc_s4"
    by (simp add: abc_s4_def)
  from isolator_matching
    [where env = demo_env and w = "()" and state = abc_s3 and w' = "()"
       and ps' = "products abc_s4"] c
  have d: "segment_products demo_env () abc_s3 = ((), abc_s4)"
    unfolding s4 by blast
  have h: "(\<forall>w p. \<exists>img. Image_open ?env w p = Inr img)
      \<and> (\<forall>w d i. \<exists>t w'. generate_content ?env w d i = (Inr t, w'))
      \<and> (\<forall>w i p. fst (Image_save ?env w i p) = None)
      \<and> (\<forall>q\<in>set (products abc_s3). \<exists>s. name q = JStr s)"
    by (simp add: demo_env_def abc_s3_def red_mug_def phone_def split: directive.splits)
  have m: "map (\<lambda>q. case find_frame (frames abc_s3) q of
                      None \<Rightarrow> q
                    | Some g \<Rightarrow>
                        (case name q of
                           JStr s \<Rightarrow>
                             q\<lparr>segmented_image_path :=
                                 ''/output/''
                                 @ segmented_name (py_replace '' '' ''_'' s) (timestamp q),
                               frame_image_path :=
                                 public_frame_path (video_id abc_s3) (frame_number g)\<rparr>
                         | _ \<Rightarrow> q))
            (products abc_s3) = products abc_s4"
    by (simp add: find_frame_def abs_diff_below_one_iff
        public_frame_path_def segmented_name_def str_int_digits py_int_numerals
        abc_s1_def abc_s2_def abc_s3_def abc_s4_def abc_frames_def red_mug_def phone_def)
  from isolator_matching [where env = ?env and w = "()" and state = abc_s3] h
  have e: "snd (segment_products ?env () abc_s3) = abc_s4"
    unfolding m s4 by blast
  have p4: "products abc_s4 =
       [red_mug\<lparr>segmented_image_path := ''/output/segmented_Red_Mug_0.jpg'',
                frame_image_path := ''/output/frame_ABC_0.jpg''\<rparr>,
        phone\<lparr>segmented_image_path := ''/output/segmented_Detected_Product_2.jpg'',
              frame_image_path := ''/output/frame_ABC_2.jpg''\<rparr>]"
    by (simp add: abc_s4_def)
  have n: "find_frame (frames abc_s3) (phone\<lparr>timestamp := 5\<rparr>) = None"
    by (simp add: find_frame_def abs_diff_below_one_iff abc_s3_def abc_frames_def phone_def)
  then have n': "\<forall>q\<in>set (products ?far). find_frame (frames ?far) q = None"
    by simp
  from isolator_matching [where env = demo_env and w = "()" and state = ?far] n'
  have g: "segment_products demo_env () ?far = ((), ?far)"
    by blast
  have i: "segmented_image_path (phone\<lparr>timestamp := 5\<rparr>) = []"
    by (simp add: phone_def)
  from h have h1: "\<forall>w p. \<exists>img. Image_open ?env w p = Inr img" by blast
  from a b c d e p4 n g i h1 show ?thesis by blast
qed

section \<open>Enhancement\<close>

lemma styles_loop_paths:
  assumes "styles_loop env w img p i sts acc = (w', Inr imgs)" and "name_replace (name p) = Inr nm"
  shows "imgs = acc @ map (\<lambda>j. ''/output/'' @ enhanced_name nm j (timestamp p)) [i..<i + length sts]"
  using assms
proof (induction sts arbitrary: w i acc)
  case Nil
  then show ?case by simp
next
  case (Cons st sts)
  from Cons.prems obtain w1 where
    run: "styles_loop env w1 img p (i + 1) sts
            (acc @ [''/output/'' @ enhanced_name nm i (timestamp p)]) = (w', Inr imgs)"
    by (auto split: prod.splits sum.splits option.splits)
  have "[i..<Suc (i + length sts)] = i # [Suc i..<Suc (i + length sts)]"
    by (simp add: upt_rec)
  with Cons.IH [OF run Cons.prems(2)] show ?case by simp
qed

lemma styles_loop_name:
  assumes "styles_loop env w img p i sts acc = (w', Inr imgs)" and "sts \<noteq> []"
  shows "\<exists>nm. name_replace (name p) = Inr nm"
  using assms by (cases sts) (auto split: prod.splits sum.splits option.splits)

lemma enhance_product_done:
  assumes "enhance_product env w p = (w', p', None)"
  shows "(segmented_image_path p \<noteq> [] \<longrightarrow>
            (\<exists>nm. name_replace (name p) = Inr nm
               \<and> p' = p\<lparr>enhanced_images :=
                      map (\<lambda>j. ''/output/'' @ enhanced_name nm j (timestamp p)) [0..<length styles]\<rparr>))
         \<and> (segmented_image_path p = [] \<longrightarrow> p' = p)"
proof (cases "segmented_image_path p = []")
  case True
  with assms show ?thesis by (simp add: enhance_product_def)
next
  case False
  with assms obtain img imgs where
    run: "styles_loop env w img p 0 styles [] = (w', Inr imgs)"
    and p': "p' = p\<lparr>enhanced_images := imgs\<rparr>"
    by (auto simp: enhance_product_def split: sum.splits prod.splits)
  from styles_loop_name [OF run] obtain nm where nm: "name_replace (name p) = Inr nm"
    by (auto simp: styles_def)
  from styles_loop_paths [OF run nm] have
    "imgs = map (\<lambda>j. ''/output/'' @ enhanced_name nm j (timestamp p)) [0..<length styles]"
    by simp
  with False nm p' show ?thesis by simp
qed

lemma enhance_loop_done:
  assumes "enhance_loop env w ps = (w', ps', None)"
  shows "list_all2 (\<lambda>p p'.
           (segmented_image_path p \<noteq> [] \<longrightarrow>
              (\<exists>nm. name_replace (name p) = Inr nm
                 \<and> p' = p\<lparr>enhanced_images :=
                        map (\<lambda>j. ''/output/'' @ enhanced_name nm j (timestamp p)) [0..<length styles]\<rparr>))
           \<and> (segmented_image_path p = [] \<longrightarrow> p' = p)) ps ps'"
  using assms
proof (induction ps arbitrary: w ps')
  case Nil
  then show ?case by simp
next
  case (Cons p ps)
  obtain w1 p1 r1 where ep: "enhance_product env w p = (w1, p1, r1)"
    by (cases "enhance_product env w p") auto
  obtain w2 ps2 r2 where el: "enhance_loop env w1 ps = (w2, ps2, r2)"
    by (cases "enhance_loop env w1 ps") auto
  from Cons.prems ep have r1: "r1 = None" by (cases r1) simp_all
  with Cons.prems ep el have r: "r2 = None" "w2 = w'" and ps': "ps' = p1 # ps2"
    by simp_all
  from ep r1 have "enhance_product env w p = (w1, p1, None)" by simp
  note a = enhance_product_done [OF this]
  from el r have "enhance_loop env w1 ps = (w', ps2, None)" by simp
  note b = Cons.IH [OF this]
  from a b ps' show ?case by (simp only: list_all2_Cons simp_thms)
qed

lemma segment_product_enhanced:
  "segment_product env w vid fs p = (w', p', r) \<Longrightarrow> enhanced_images p' = enhanced_images p"
  by (auto simp: segment_product_def split: sum.splits prod.splits option.splits)

lemma segment_loop_enhanced:
  "segment_loop env w vid fs ps = (w', ps', r) \<Longrightarrow>
     map enhanced_images ps' = map enhanced_images ps"
proof (induction ps arbitrary: w w' ps' r)
  case Nil
  then show ?case by simp
next
  case (Cons p ps)
  obtain w1 p1 r1 where sp: "segment_product env w vid fs p = (w1, p1, r1)"
    by (cases "segment_product env w vid fs p") auto
  obtain w2 ps2 r2 where sl: "segment_loop env w1 vid fs ps = (w2, ps2, r2)"
    by (cases "segment_loop env w1 vid fs ps") auto
  from segment_product_enhanced [OF sp] Cons.IH [OF sl] sp sl Cons.prems
  show ?case by (cases r1) auto
qed

lemma extract_video_products:
  "products (snd (extract_video env w s)) = products s"
  by (auto simp: extract_video_def Let_def split: sum.splits prod.splits option.splits)

lemma extract_frames_products:
  "products (snd (extract_frames env w s)) = products s"
  by (auto simp: extract_frames_def Let_def split: sum.splits prod.splits)

lemma identify_products_fresh:
  assumes "identify_products env w s = (w', s')"
  shows "\<exists>new. products s' = products s @ new \<and> (\<forall>p\<in>set new. enhanced_images p = [])"
proof -
  obtain w1 fs1 ps1 r1 where
    il: "identify_loop env w (frames s) (products s) = (w1, fs1, ps1, r1)"
    by (cases "identify_loop env w (frames s) (products s)") auto
  with assms have "products s' = ps1"
    by (cases r1) (auto simp: identify_products_def)
  with identify_loop_timestamps [OF il] show ?thesis by blast
qed

lemma segment_products_enhanced:
  assumes "segment_products env w s = (w', s')"
  shows "map enhanced_images (products s') = map enhanced_images (products s)"
proof -
  obtain w1 ps1 r1 where
    sl: "segment_loop env w (video_id s) (frames s) (products s) = (w1, ps1, r1)"
    by (cases "segment_loop env w (video_id s) (frames s) (products s)") auto
  with assms have "products s' = ps1"
    by (cases r1) (auto simp: segment_products_def)
  with segment_loop_enhanced [OF sl] show ?thesis by simp
qed

text \<open>
Claim C7. In a run of the pipeline, when the loop of the enhancer stage ends without an
  exception, the stage stores its result, and every product has kept its isolated image
  path and has exactly three enhanced paths, numbered 1, 2, 3 in the order of the
  styles, if that path is non-empty, and none if it is empty.
\<close>

theorem enhancer_three_or_none:
  assumes "extract_video env w0 (initial_state u) = (w1, s1)"
    and "extract_frames env w1 s1 = (w2, s2)"
    and "identify_products env w2 s2 = (w3, s3)"
    and "segment_products env w3 s3 = (w4, s4)"
    and "enhance_loop env w4 (products s4) = (w5, ps, None)"
  shows "enhance_products env w4 s4 = (w5, s4\<lparr>products := ps\<rparr>)
         \<and> length ps = length (products s4)
         \<and> (\<forall>i<length ps.
               segmented_image_path (ps ! i) = segmented_image_path (products s4 ! i)
               \<and> (segmented_image_path (ps ! i) \<noteq> [] \<longrightarrow>
                    length (enhanced_images (ps ! i)) = 3
                    \<and> (\<exists>nm. name_replace (name (ps ! i)) = Inr nm
                          \<and> enhanced_images (ps ! i) =
                              [''/output/'' @ enhanced_name nm 0 (timestamp (ps ! i)),
                               ''/output/'' @ enhanced_name nm 1 (timestamp (ps ! i)),
                               ''/output/'' @ enhanced_name nm 2 (timestamp (ps ! i))]))
               \<and> (segmented_image_path (ps ! i) = [] \<longrightarrow> enhanced_images (ps ! i) = []))"
proof -
  have "products s1 = []"
    using extract_video_products [of env w0 "initial_state u"] assms(1)
    by (simp add: initial_state_def)
  with extract_frames_products [of env w1 s1] assms(2) have "products s2 = []" by simp
  with identify_products_fresh [OF assms(3)] have "\<forall>p\<in>set (products s3). enhanced_images p = []"
    by auto
  then have s3: "enhanced_images ` set (products s3) \<subseteq> {[]}" by auto
  have "set (map enhanced_images (products s4)) = set (map enhanced_images (products s3))"
    using segment_products_enhanced [OF assms(4)] by (rule arg_cong)
  with s3 have "enhanced_images ` set (products s4) \<subseteq> {[]}" by simp
  then have fresh: "\<forall>p\<in>set (products s4). enhanced_images p = []" by auto
  from enhance_loop_done [OF assms(5)] have
    rel: "list_all2 (\<lambda>p p'.
           (segmented_image_path p \<noteq> [] \<longrightarrow>
              (\<exists>nm. name_replace (name p) = Inr nm
                 \<and> p' = p\<lparr>enhanced_images :=
                        map (\<lambda>j. ''/output/'' @ enhanced_name nm j (timestamp p)) [0..<length styles]\<rparr>))
           \<and> (segmented_image_path p = [] \<longrightarrow> p' = p)) (products s4) ps" .
  then have len: "length ps = length (products s4)"
    by (simp add: list_all2_lengthD)
  have each: "segmented_image_path (ps ! i) = segmented_image_path (products s4 ! i)
               \<and> (segmented_image_path (ps ! i) \<noteq> [] \<longrightarrow>
                    length (enhanced_images (ps ! i)) = 3
                    \<and> (\<exists>nm. name_replace (name (ps ! i)) = Inr nm
                          \<and> enhanced_images (ps ! i) =
                              [''/output/'' @ enhanced_name nm 0 (timestamp (ps ! i)),
                               ''/output/'' @ enhanced_name nm 1 (timestamp (ps ! i)),
                               ''/output/'' @ enhanced_name nm 2 (timestamp (ps ! i))]))
               \<and> (segmented_image_path (ps ! i) = [] \<longrightarrow> enhanced_images (ps ! i) = [])"
    if i: "i < length ps" for i
  proof -
    let ?p = "products s4 ! i"
    from i len have mem: "?p \<in> set (products s4)" by simp
    with fresh have e: "enhanced_images ?p = []" by blast
    from rel i len have
      r: "(segmented_image_path ?p \<noteq> [] \<longrightarrow>
              (\<exists>nm. name_replace (name ?p) = Inr nm
                 \<and> ps ! i = ?p\<lparr>enhanced_images :=
                        map (\<lambda>j. ''/output/'' @ enhanced_name nm j (timestamp ?p)) [0..<length styles]\<rparr>))
           \<and> (segmented_image_path ?p = [] \<longrightarrow> ps ! i = ?p)"
      by (simp add: list_all2_conv_all_nth)
    show ?thesis
    proof (cases "segmented_image_path ?p = []")
      case True
      with r e show ?thesis by simp
    next
      case False
      with r obtain nm where nm: "name_replace (name ?p) = Inr nm"
        and pi: "ps ! i = ?p\<lparr>enhanced_images :=
                        map (\<lambda>j. ''/output/'' @ enhanced_name nm j (timestamp ?p)) [0..<length styles]\<rparr>"
        by blast
      have "[0..<length styles] = [0, 1, 2]"
        by (simp add: styles_def upt_rec)
      with pi have pi': "ps ! i = ?p\<lparr>enhanced_images :=
             [''/output/'' @ enhanced_name nm 0 (timestamp ?p),
              ''/output/'' @ enhanced_name nm 1 (timestamp ?p),
              ''/output/'' @ enhanced_name nm 2 (timestamp ?p)]\<rparr>"
        by (simp only: list.map)
      from False nm show ?thesis
        unfolding pi' by (auto simp del: One_nat_def)
    qed
  qed
  have "enhance_products env w4 s4 = (w5, s4\<lparr>products := ps\<rparr>)"
    using assms(5) by (simp add: enhance_products_def)
  with len each show ?thesis by blast
qed

theorem enhancer_three_or_none_witness:
  "extract_video demo_env () (initial_state ''https://youtu.be/ABC'') = ((), abc_s1)
   \<and> extract_frames demo_env () abc_s1 = ((), abc_s2)
   \<and> identify_products demo_env () abc_s2 = ((), abc_s3)
   \<and> segment_products demo_env () abc_s3 = ((), abc_s4)
   \<and> map enhanced_images (products (snd (enhance_products demo_env () abc_s4)))
       = [[''/output/enhanced_Red_Mug_1_0.jpg'', ''/output/enhanced_Red_Mug_2_0.jpg'',
           ''/output/enhanced_Red_Mug_3_0.jpg''],
          [''/output/enhanced_Detected_Product_1_2.jpg'',
           ''/output/enhanced_Detected_Product_2_2.jpg'',
           ''/output/enhanced_Detected_Product_3_2.jpg'']]"
  using enhancer_three_or_none [OF abc_stage1 abc_stage2 abc_stage3 abc_stage4 abc_stage5]
    abc_stage1 abc_stage2 abc_stage3 abc_stage4
  by simp

section \<open>Error propagation\<close>

lemma extract_video_error:
  "error (snd (extract_video env w s)) = error s
   \<or> (\<exists>e. error (snd (extract_video env w s)) = Some (''Video extraction failed: '' @ e))"
  by (auto simp: extract_video_def Let_def split: sum.splits prod.splits option.splits)

lemma extract_frames_error:
  "error (snd (extract_frames env w s)) = error s
   \<or> (\<exists>e. error (snd (extract_frames env w s)) = Some (''Frame extraction failed: '' @ e))"
  by (auto simp: extract_frames_def Let_def split: sum.splits prod.splits)

lemma identify_products_error:
  "error (snd (identify_products env w s)) = error s
   \<or> (\<exists>e. error (snd (identify_products env w s)) = Some (''Product identification failed: '' @ e))"
  by (auto simp: identify_products_def split: prod.splits option.splits)

lemma segment_products_error:
  "error (snd (segment_products env w s)) = error s
   \<or> (\<exists>e. error (snd (segment_products env w s)) = Some (''Product segmentation failed: '' @ e))"
  by (auto simp: segment_products_def split: prod.splits option.splits)

lemma enhance_products_error:
  "error (snd (enhance_products env w s)) = error s
   \<or> (\<exists>e. error (snd (enhance_products env w s)) = Some (''Product enhancement failed: '' @ e))"
  by (auto simp: enhance_products_def split: prod.splits option.splits)

text \<open>
Claim C1, as amended. In a run of the pipeline, once a stage has set \<open>error\<close>, it is
  set after every later stage, and the run returns the error that the last stage left.
  Later stages are not skipped: what they do to the message, the frames and the
  products is not restricted.
\<close>

theorem error_never_cleared:
  assumes "extract_video env w0 (initial_state u) = (w1, s1)"
    and "extract_frames env w1 s1 = (w2, s2)"
    and "identify_products env w2 s2 = (w3, s3)"
    and "segment_products env w3 s3 = (w4, s4)"
    and "enhance_products env w4 s4 = (w5, s5)"
  shows "(error s1 \<noteq> None \<longrightarrow> error s2 \<noteq> None)
         \<and> (error s2 \<noteq> None \<longrightarrow> error s3 \<noteq> None)
         \<and> (error s3 \<noteq> None \<longrightarrow> error s4 \<noteq> None)
         \<and> (error s4 \<noteq> None \<longrightarrow> error s5 \<noteq> None)
         \<and> (error s5 \<noteq> None \<longrightarrow>
               (\<exists>e. error s5 = Some e \<and> process_video env w0 u = (w5, Error e)))"
proof -
  have e1: "error s1 = None \<or> (\<exists>e. error s1 = Some e \<and> e \<noteq> [])"
    using extract_video_error [of env w0 "initial_state u"] assms(1)
    by (auto simp: initial_state_def)
  have k2: "error s2 = error s1 \<or> (\<exists>e. error s2 = Some (''Frame extraction failed: '' @ e))"
    using extract_frames_error [of env w1 s1] assms(2) by simp
  have k3: "error s3 = error s2
      \<or> (\<exists>e. error s3 = Some (''Product identification failed: '' @ e))"
    using identify_products_error [of env w2 s2] assms(3) by simp
  have k4: "error s4 = error s3
      \<or> (\<exists>e. error s4 = Some (''Product segmentation failed: '' @ e))"
    using segment_products_error [of env w3 s3] assms(4) by simp
  have k5: "error s5 = error s4
      \<or> (\<exists>e. error s5 = Some (''Product enhancement failed: '' @ e))"
    using enhance_products_error [of env w4 s4] assms(5) by simp
  from e1 k2 have e2: "error s2 = None \<or> (\<exists>e. error s2 = Some e \<and> e \<noteq> [])" by auto
  from e2 k3 have e3: "error s3 = None \<or> (\<exists>e. error s3 = Some e \<and> e \<noteq> [])" by auto
  from e3 k4 have e4: "error s4 = None \<or> (\<exists>e. error s4 = Some e \<and> e \<noteq> [])" by auto
  from e4 k5 have e5: "error s5 = None \<or> (\<exists>e. error s5 = Some e \<and> e \<noteq> [])" by auto
  have wf: "workflow env w0 (initial_state u) = (w5, s5)"
    using assms by (simp add: workflow_def)
  have last: "\<exists>e. error s5 = Some e \<and> process_video env w0 u = (w5, Error e)"
    if "error s5 \<noteq> None"
  proof -
    from that e5 obtain e where "error s5 = Some e" "e \<noteq> []" by auto
    with wf show ?thesis by (simp add: process_video_def)
  qed
  from k2 have "error s1 \<noteq> None \<longrightarrow> error s2 \<noteq> None" by auto
  moreover from k3 have "error s2 \<noteq> None \<longrightarrow> error s3 \<noteq> None" by auto
  moreover from k4 have "error s3 \<noteq> None \<longrightarrow> error s4 \<noteq> None" by auto
  moreover from k5 have "error s4 \<noteq> None \<longrightarrow> error s5 \<noteq> None" by auto
  ultimately show ?thesis using last by blast
qed

theorem error_never_cleared_witness:
  "error clip_s1 \<noteq> None \<and> error clip_s2 \<noteq> None
   \<and> process_video demo_env () ''https://example.com/clip''
       = ((), Error ''Frame extraction failed: float division by zero'')"
  using error_never_cleared [OF clip_stage1 clip_stage2 clip_stage3 clip_stage4 clip_stage5]
  by (simp add: clip_s1_def clip_s2_def)

text \<open>
Claim C1 as stated fails. When the download fails, the sampler runs on the missing
  file and replaces the error of the acquisition by its own. When the detector fails on
  the second frame, the isolator still changes the product found in the first.
\<close>

theorem later_stages_not_noop_counterexample:
  "error (snd (extract_video demo_env () (initial_state ''https://example.com/clip'')))
     = Some ''Video extraction failed: download error''
   \<and> error (snd (extract_frames demo_env ()
        (snd (extract_video demo_env () (initial_state ''https://example.com/clip'')))))
     = Some ''Frame extraction failed: float division by zero''
   \<and> error (snd (identify_products demo_env () bad_s2))
     = Some ''Product identification failed: cannot identify image file''
   \<and> products (snd (segment_products demo_env () (snd (identify_products demo_env () bad_s2))))
     \<noteq> products (snd (identify_products demo_env () bad_s2))"
proof -
  have a: "snd (extract_video demo_env () (initial_state ''https://example.com/clip'')) = clip_s1"
    by (simp add: clip_stage1)
  have b: "snd (extract_frames demo_env () clip_s1) = clip_s2"
    by (simp add: clip_stage2)
  have c: "snd (identify_products demo_env () bad_s2) = bad_s3"
    by (simp add: bad_stage3)
  have d: "products (snd (segment_products demo_env () bad_s3)) =
      [red_mug\<lparr>segmented_image_path := ''/output/segmented_Red_Mug_0.jpg'',
               frame_image_path := ''/output/frame_BAD_0.jpg''\<rparr>]"
    by (simp add: bad_stage4)
  show ?thesis
    unfolding a b c d by (simp add: clip_s1_def clip_s2_def bad_s3_def red_mug_def)
qed

end
